theory Spec2Isabelle
  imports Complex_Main "HOL-Library.Multiset"
begin

section \<open>Data model\<close>

text \<open>
  The viewer keeps its whole state in a handful of closure variables of the
  \<^verbatim>\<open>DOMContentLoaded\<close> handler of \<^verbatim>\<open>script.js\<close>. Timestamps are the values
  \<^verbatim>\<open>new Date(s)\<close> yields for the ISO strings of the data files: milliseconds since the
  epoch, compared as numbers (the strings are taken to parse; an invalid date is not
  modelled). Coordinates are numbers that the script only passes on. A point index is an
  integer, as \<^verbatim>\<open>parseInt\<close> of a slider value is. The map and the page elements the script
  looks up by id exist, so that using them never throws.
\<close>

record radar_frame =
  time :: int
  fileName :: string  \<comment> \<open>the property \<^verbatim>\<open>file\<close>\<close>

type_synonym bounds = "(real \<times> real) \<times> (real \<times> real)"

record radar_meta =
  bounds :: bounds
  frames :: "radar_frame list"

text \<open>\<^verbatim>\<open>xs[i]\<close> of JavaScript: \<^verbatim>\<open>undefined\<close> (here \<open>None\<close>) outside the array.\<close>

definition at_index :: "'a list \<Rightarrow> int \<Rightarrow> 'a option" where
  "at_index xs i = (if 0 \<le> i \<and> i < int (length xs) then Some (xs ! nat i) else None)"

section \<open>Frame resolution\<close>

text \<open>
  Lines 131 to 138 of \<^verbatim>\<open>updateFrame\<close> in \<^verbatim>\<open>script.js\<close>:
  \<^verbatim>\<open>
  let correctFrame = animationState.radarMeta.frames[0];
  for (const frame of animationState.radarMeta.frames) {
      if (new Date(frame.time) <= pointTime) { correctFrame = frame; } else { break; }
  }
  \<close>
  \<open>correctFrame_loop\<close> is the \<^verbatim>\<open>for\<close> loop over the frames that are still to be visited,
  its first argument the current value of the variable \<^verbatim>\<open>correctFrame\<close>.
\<close>

fun correctFrame_loop :: "radar_frame option \<Rightarrow> radar_frame list \<Rightarrow> int \<Rightarrow> radar_frame option" where
  "correctFrame_loop correctFrame [] pointTime = correctFrame"
| "correctFrame_loop correctFrame (frame # rest) pointTime =
     (if time frame \<le> pointTime then correctFrame_loop (Some frame) rest pointTime
      else correctFrame)"

definition correctFrame :: "radar_frame list \<Rightarrow> int \<Rightarrow> radar_frame option" where
  "correctFrame fs pointTime = correctFrame_loop (at_index fs 0) fs pointTime"

text \<open>
  The other revision of the script (the second source file) keeps the radar times in
  \<^verbatim>\<open>radarMeta.timestamps\<close> and resolves an index, scanning from the end:
  \<^verbatim>\<open>
  let radarFrameIndex = 0;
  for (let i = animationState.radarMeta.timestamps.length - 1; i >= 0; i--) {
      const radarTime = new Date(animationState.radarMeta.timestamps[i]);
      if (pointTime >= radarTime) { radarFrameIndex = i; break; }
  }
  \<close>
  The second argument of \<open>radarFrameIndex_loop\<close> is \<open>i + 1\<close>.
\<close>

fun radarFrameIndex_loop :: "int list \<Rightarrow> nat \<Rightarrow> int \<Rightarrow> nat" where
  "radarFrameIndex_loop timestamps 0 pointTime = 0"
| "radarFrameIndex_loop timestamps (Suc i) pointTime =
     (if pointTime \<ge> timestamps ! i then i else radarFrameIndex_loop timestamps i pointTime)"

definition radarFrameIndex :: "int list \<Rightarrow> int \<Rightarrow> nat" where
  "radarFrameIndex timestamps pointTime =
     radarFrameIndex_loop timestamps (length timestamps) pointTime"

text \<open>The index both scans arrive at on a sorted sequence: one less than the number of
  frames that are not later than the query, and 0 when there is none.\<close>

definition effective_index :: "radar_frame list \<Rightarrow> int \<Rightarrow> nat" where
  "effective_index fs t = length (takeWhile (\<lambda>f. time f \<le> t) fs) - 1"

section \<open>Page state\<close>

text \<open>
  A feature of \<^verbatim>\<open>flight_data.geojson\<close>, by its \<^verbatim>\<open>geometry.type\<close>. A point feature
  carries \<^verbatim>\<open>geometry.coordinates\<close> (longitude first) and the two properties the script
  reads; a missing \<^verbatim>\<open>seeding_type\<close> is \<open>None\<close>.
\<close>

record track_point =
  lon :: real
  lat :: real
  timestamp_iso :: int
  seeding_type :: "string option"

datatype feature =
  PointFeature track_point
| LineStringFeature "(real \<times> real) list"
| OtherFeature string

record flight_data =
  path :: "(real \<times> real) list option"
  points :: "track_point list"

text \<open>The Leaflet objects the script holds, with whether they are on the map.\<close>

record circle_marker =
  latLng :: "real \<times> real"
  fillColor :: "string option"
  marker_on_map :: bool

record image_overlay =
  url :: string
  overlay_bounds :: bounds
  overlay_on_map :: bool

record geojson_layer =
  layer_path :: "(real \<times> real) list"
  layer_on_map :: bool

text \<open>
  The closure variables (the properties of \<^verbatim>\<open>animationState\<close> side by side with the
  others), the browser's table of running interval timers, and the page elements the
  script writes to. \<open>timestamp_display\<close> is the instant the time label was last formatted
  from; \<open>alerts\<close> are the messages shown by \<^verbatim>\<open>alert\<close>.
\<close>

record state =
  flightData :: "flight_data option"
  radarOverlay :: "image_overlay option"
  airplaneMarker :: "circle_marker option"
  flightPathLayer :: "geojson_layer option"
  isPlaying :: bool
  timer :: "nat option"
  currentIndex :: int
  radarMeta :: "radar_meta option"
  currentFlightId :: "string option"
  currentRadarFile :: "string option"
  intervals :: "nat set"
  next_interval :: nat
  map_view :: "(real \<times> real) list option"
  play_pause_text :: string
  play_pause_playing :: bool
  controls_hidden :: bool
  slider_max :: int
  slider_value :: int
  slider_disabled :: bool
  timestamp_display :: "int option"
  alerts :: "string list"

text \<open>
  A function of the script either completes or throws, and what it assigned before the
  throw stays assigned: both outcomes carry the state.
\<close>

datatype js_error = TypeError | ReferenceError

datatype completion = Normal state | Throw js_error state

fun state_of :: "completion \<Rightarrow> state" where
  "state_of (Normal s) = s"
| "state_of (Throw e s) = s"

fun thrown :: "completion \<Rightarrow> js_error option" where
  "thrown (Normal s) = None"
| "thrown (Throw e s) = Some e"

fun and_then :: "completion \<Rightarrow> (state \<Rightarrow> completion) \<Rightarrow> completion" where
  "and_then (Normal s) f = f s"
| "and_then (Throw e s) f = Throw e s"

section \<open>The script\<close>

subsection \<open>Sorting the frames\<close>

text \<open>
  \<^verbatim>\<open>frames.sort((a, b) => new Date(a.time) - new Date(b.time))\<close>. The language
  standard makes \<^verbatim>\<open>Array.prototype.sort\<close> stable and, for a comparator that is a
  consistent order, leaves no other freedom: the result is the one stable arrangement.
  \<open>array_sort\<close> computes it by insertion from the right, where an element goes in front
  of the first one it does not compare greater than.
\<close>

definition compareFn :: "radar_frame \<Rightarrow> radar_frame \<Rightarrow> int" where
  "compareFn a b = time a - time b"

fun insert_by :: "('a \<Rightarrow> 'a \<Rightarrow> int) \<Rightarrow> 'a \<Rightarrow> 'a list \<Rightarrow> 'a list" where
  "insert_by cmp x [] = [x]"
| "insert_by cmp x (y # ys) =
     (if cmp x y \<le> 0 then x # y # ys else y # insert_by cmp x ys)"

definition array_sort :: "('a \<Rightarrow> 'a \<Rightarrow> int) \<Rightarrow> 'a list \<Rightarrow> 'a list" where
  "array_sort cmp xs = foldr (insert_by cmp) xs []"

subsection \<open>Play and pause\<close>

text \<open>\<^verbatim>\<open>clearInterval(animationState.timer)\<close>; clearing \<^verbatim>\<open>null\<close> does nothing.\<close>

definition clearInterval :: "nat option \<Rightarrow> nat set \<Rightarrow> nat set" where
  "clearInterval t running = (case t of None \<Rightarrow> running | Some i \<Rightarrow> running - {i})"

definition pauseAnimation :: "state \<Rightarrow> state" where
  "pauseAnimation s =
     (if \<not> isPlaying s then s
      else s\<lparr>isPlaying := False,
             play_pause_text := ''Play'',
             play_pause_playing := False,
             intervals := clearInterval (timer s) (intervals s)\<rparr>)"

text \<open>\<^verbatim>\<open>setInterval\<close> hands out a fresh handle and starts the timer.\<close>

definition playAnimation :: "state \<Rightarrow> state" where
  "playAnimation s =
     (if isPlaying s then s
      else s\<lparr>isPlaying := True,
             play_pause_text := ''Pause'',
             play_pause_playing := True,
             timer := Some (next_interval s),
             intervals := insert (next_interval s) (intervals s),
             next_interval := Suc (next_interval s)\<rparr>)"

subsection \<open>Showing a track point\<close>

definition radar_url :: "string option \<Rightarrow> string \<Rightarrow> string" where
  "radar_url flightId f =
     ''processed_data/'' @ (case flightId of None \<Rightarrow> ''null'' | Some i \<Rightarrow> i)
       @ ''/radar_frames/'' @ f"

definition seeding_color :: "string option \<Rightarrow> string" where
  "seeding_color type =
     (if type = Some ''BIP'' then ''#ff00ff''
      else if type = Some ''Eject'' then ''#ffff00''
      else if type = Some ''Generator'' then ''#00ffff''
      else ''#ff7800'')"

text \<open>
  \<^verbatim>\<open>updateFrame(pointIndex)\<close> of \<^verbatim>\<open>script.js\<close>. Reading a property of \<^verbatim>\<open>null\<close> or
  \<^verbatim>\<open>undefined\<close> throws a \<^verbatim>\<open>TypeError\<close>: \<^verbatim>\<open>flightData.points\<close> without flight data,
  \<^verbatim>\<open>radarMeta.frames\<close> without metadata, \<^verbatim>\<open>correctFrame.file\<close> when there is no frame,
  \<^verbatim>\<open>radarOverlay.setUrl\<close> and \<^verbatim>\<open>airplaneMarker.setLatLng\<close> when the object was never
  created. The slider is a range input between 0 and \<open>slider_max\<close>; the value written to
  it here is the index of an existing point.
\<close>

definition updateFrame :: "int \<Rightarrow> state \<Rightarrow> completion" where
  "updateFrame pointIndex s =
     (let s1 = s\<lparr>currentIndex := pointIndex\<rparr> in
      case flightData s1 of
        None \<Rightarrow> Throw TypeError s1
      | Some fd \<Rightarrow>
     (case at_index (points fd) pointIndex of
        None \<Rightarrow> Normal s1
      | Some point \<Rightarrow>
     (let pointTime = timestamp_iso point in
      case radarMeta s1 of
        None \<Rightarrow> Throw TypeError s1
      | Some meta \<Rightarrow>
     (case correctFrame (frames meta) pointTime of
        None \<Rightarrow> Throw TypeError s1
      | Some frame \<Rightarrow>
        and_then
          (if currentRadarFile s1 \<noteq> Some (fileName frame) then
             (case radarOverlay s1 of
                None \<Rightarrow> Throw TypeError s1
              | Some overlay \<Rightarrow>
                  Normal (s1\<lparr>radarOverlay :=
                               Some (overlay\<lparr>url := radar_url (currentFlightId s1) (fileName frame)\<rparr>),
                             currentRadarFile := Some (fileName frame)\<rparr>))
           else Normal s1)
          (\<lambda>s2. case airplaneMarker s2 of
                  None \<Rightarrow> Throw TypeError s2
                | Some marker \<Rightarrow>
                    Normal (s2\<lparr>airplaneMarker :=
                                 Some (marker\<lparr>latLng := (lat point, lon point),
                                              fillColor := Some (seeding_color (seeding_type point))\<rparr>),
                               slider_value := pointIndex,
                               timestamp_display := Some pointTime\<rparr>))))))"

text \<open>The callback \<^verbatim>\<open>playAnimation\<close> passes to \<^verbatim>\<open>setInterval\<close>: one tick.\<close>

definition interval_callback :: "state \<Rightarrow> completion" where
  "interval_callback s =
     (case flightData s of
        None \<Rightarrow> Throw TypeError s
      | Some fd \<Rightarrow>
          (let nextIndex = currentIndex s + 1 in
           updateFrame (if nextIndex \<ge> int (length (points fd)) then 0 else nextIndex) s))"

text \<open>
  Modelled from the spec: the markup of the page, with the element \<^verbatim>\<open>timeline-slider\<close>, is
  not among the sources. The specification has the UI surface "a scrub control bounded
  to [0, length-1]", and the script treats the element as a range input: it sets its
  \<^verbatim>\<open>max\<close> to \<^verbatim>\<open>flightData.points.length - 1\<close>, its \<^verbatim>\<open>value\<close> and its \<^verbatim>\<open>disabled\<close> flag.
  A range input with the minimum 0 holds the value asked of it brought into the range
  from 0 to its maximum, and 0 when the maximum is below 0; while it is disabled the
  user cannot move it and no \<^verbatim>\<open>input\<close> event is fired.
\<close>

definition range_value :: "int \<Rightarrow> int \<Rightarrow> int" where
  "range_value maximum v = max 0 (min maximum v)"

text \<open>
  The user moves the timeline slider towards \<open>v\<close>. The slider takes the value its range
  admits and the browser runs the \<^verbatim>\<open>input\<close> listener, which pauses and then calls
  \<^verbatim>\<open>updateFrame(parseInt(e.target.value, 10))\<close> with the value the slider holds.
\<close>

definition slider_input :: "int \<Rightarrow> state \<Rightarrow> completion" where
  "slider_input v s =
     (if slider_disabled s then Normal s
      else (let s1 = s\<lparr>slider_value := range_value (slider_max s) v\<rparr> in
            updateFrame (slider_value s1) (pauseAnimation s1)))"

text \<open>The \<^verbatim>\<open>click\<close> listener of the play/pause button.\<close>

definition play_pause_click :: "state \<Rightarrow> state" where
  "play_pause_click s = (if isPlaying s then pauseAnimation s else playAnimation s)"

subsection \<open>Reset and load\<close>

text \<open>\<^verbatim>\<open>map.removeLayer\<close> takes a layer off the map and ignores one that is not on it;
  the variables keep the removed objects.\<close>

definition resetMap :: "state \<Rightarrow> state" where
  "resetMap s =
     (let s1 = pauseAnimation s in
      s1\<lparr>flightPathLayer := map_option (\<lambda>l. l\<lparr>layer_on_map := False\<rparr>) (flightPathLayer s1),
         airplaneMarker := map_option (\<lambda>m. m\<lparr>marker_on_map := False\<rparr>) (airplaneMarker s1),
         radarOverlay := map_option (\<lambda>r. r\<lparr>overlay_on_map := False\<rparr>) (radarOverlay s1),
         flightData := None,
         currentIndex := 0,
         currentRadarFile := None,
         controls_hidden := True,
         slider_disabled := True\<rparr>)"

definition drawFlightPath :: "state \<Rightarrow> completion" where
  "drawFlightPath s =
     (case flightData s of
        None \<Rightarrow> Throw TypeError s
      | Some fd \<Rightarrow>
          (case path fd of
             None \<Rightarrow> Normal s
           | Some p \<Rightarrow>
               Normal (s\<lparr>flightPathLayer := Some \<lparr>layer_path = p, layer_on_map = True\<rparr>,
                         map_view := Some p\<rparr>)))"

text \<open>
  \<^verbatim>\<open>setupAnimation\<close> of \<^verbatim>\<open>script.js\<close>. Line 85 reads \<^verbatim>\<open>flightData.points[0].geometry\<close>,
  a \<^verbatim>\<open>TypeError\<close> when there is no first point. Line 86 builds the marker from
  \<^verbatim>\<open>[startPoint[1], start_point[0]]\<close>; line 88 reads \<^verbatim>\<open>radarMeta.frames[0].file\<close>, a
  \<^verbatim>\<open>TypeError\<close> when there is no first frame; then come the overlay, the slider and the
  first \<^verbatim>\<open>updateFrame(0)\<close>.

  The script declares \<^verbatim>\<open>startPoint\<close>; a binding named \<^verbatim>\<open>start_point\<close> exists nowhere in
  it, so evaluating \<^verbatim>\<open>start_point[0]\<close> throws a \<^verbatim>\<open>ReferenceError\<close> before the marker is
  created or assigned, and nothing from line 86 on takes effect. \<open>setupAnimation_with\<close>
  takes the outcome of evaluating that expression, an error or a number, as its first
  argument; \<open>start_point_0\<close> is the outcome in the script as it is.
\<close>

definition start_point_0 :: "js_error + real" where
  "start_point_0 = Inl ReferenceError"

definition setupAnimation_with :: "js_error + real \<Rightarrow> state \<Rightarrow> completion" where
  "setupAnimation_with start_point0 s =
     (case flightData s of
        None \<Rightarrow> Throw TypeError s
      | Some fd \<Rightarrow>
     (case at_index (points fd) 0 of
        None \<Rightarrow> Throw TypeError s
      | Some startPoint \<Rightarrow>
     (case start_point0 of
        Inl e \<Rightarrow> Throw e s
      | Inr x \<Rightarrow>
     (let s1 = s\<lparr>airplaneMarker :=
                   Some \<lparr>latLng = (lat startPoint, x), fillColor = None, marker_on_map = True\<rparr>\<rparr> in
      case radarMeta s1 of
        None \<Rightarrow> Throw TypeError s1
      | Some meta \<Rightarrow>
     (case at_index (frames meta) 0 of
        None \<Rightarrow> Throw TypeError s1
      | Some firstFrame \<Rightarrow>
          updateFrame 0
            (s1\<lparr>radarOverlay :=
                   Some \<lparr>url = radar_url (currentFlightId s1) (fileName firstFrame),
                         overlay_bounds = bounds meta, overlay_on_map = True\<rparr>,
                 currentRadarFile := Some (fileName firstFrame),
                 slider_max := int (length (points fd)) - 1,
                 slider_value := 0,
                 slider_disabled := False\<rparr>))))))"

definition setupAnimation :: "state \<Rightarrow> completion" where
  "setupAnimation = setupAnimation_with start_point_0"

definition load_alert :: string where
  "load_alert = ''Could not load data for this flight. Make sure flight_data.geojson and radar_meta.json exist and are correctly formatted.''"

text \<open>The \<^verbatim>\<open>catch\<close> block of \<^verbatim>\<open>loadFlight\<close>: it reports and changes nothing else.\<close>

definition loadFlight_catch :: "state \<Rightarrow> state" where
  "loadFlight_catch s = s\<lparr>alerts := alerts s @ [load_alert]\<rparr>"

definition point_features :: "feature list \<Rightarrow> track_point list" where
  "point_features fs = concat (map (\<lambda>f. case f of PointFeature p \<Rightarrow> [p] | _ \<Rightarrow> []) fs)"

fun first_line_string :: "feature list \<Rightarrow> (real \<times> real) list option" where
  "first_line_string [] = None"
| "first_line_string (LineStringFeature p # fs) = Some p"
| "first_line_string (f # fs) = first_line_string fs"

text \<open>
  \<^verbatim>\<open>loadFlight(flightId)\<close> of \<^verbatim>\<open>script.js\<close>, run to its end with the outcomes of its two
  fetches: the features of the GeoJSON file and the radar metadata, \<open>None\<close> when the fetch
  or the parse fails (which throws into the \<^verbatim>\<open>catch\<close> block). The first argument is
  handed on to \<open>setupAnimation_with\<close>.
\<close>

definition loadFlight_with ::
    "js_error + real \<Rightarrow> string \<Rightarrow> feature list option \<Rightarrow> radar_meta option \<Rightarrow> state \<Rightarrow> state" where
  "loadFlight_with start_point0 flightId geojsonData metaResponse s =
     (let s1 = (resetMap s)\<lparr>currentFlightId := Some flightId\<rparr> in
      case geojsonData of
        None \<Rightarrow> loadFlight_catch s1
      | Some features \<Rightarrow>
     (let s2 = s1\<lparr>flightData :=
                    Some \<lparr>path = first_line_string features, points = point_features features\<rparr>\<rparr> in
      case metaResponse of
        None \<Rightarrow> loadFlight_catch s2
      | Some meta \<Rightarrow>
     (let s3 = s2\<lparr>radarMeta := Some (meta\<lparr>frames := array_sort compareFn (frames meta)\<rparr>)\<rparr> in
      case and_then (drawFlightPath s3) (setupAnimation_with start_point0) of
        Normal s4 \<Rightarrow> s4\<lparr>controls_hidden := False\<rparr>
      | Throw e s4 \<Rightarrow> loadFlight_catch s4)))"

definition loadFlight ::
    "string \<Rightarrow> feature list option \<Rightarrow> radar_meta option \<Rightarrow> state \<Rightarrow> state" where
  "loadFlight = loadFlight_with start_point_0"

text \<open>The \<^verbatim>\<open>change\<close> listener of the flight selector: an empty value resets.\<close>

definition flight_select_change ::
    "js_error + real \<Rightarrow> string \<Rightarrow> feature list option \<Rightarrow> radar_meta option \<Rightarrow> state \<Rightarrow> state" where
  "flight_select_change start_point0 v geojsonData metaResponse s =
     (if v \<noteq> [] then loadFlight_with start_point0 v geojsonData metaResponse s else resetMap s)"

subsection \<open>Sequences of operations\<close>

text \<open>
  What can happen to the page: the three listeners, the functions called directly, and a
  tick of the timer with a given handle, which runs the callback only while that timer is
  in the browser's table. An exception that escapes a listener or a callback is reported
  by the browser and the page goes on from the state reached. A load is taken as one
  step, from the call to the end of \<^verbatim>\<open>loadFlight\<close>. The first argument of \<open>step\<close> and \<open>run\<close>
  is the one of \<open>setupAnimation_with\<close>; the script as it is runs with \<open>start_point_0\<close>.
\<close>

datatype event =
  Select string "feature list option" "radar_meta option"
| Load string "feature list option" "radar_meta option"
| Reset
| Play
| Pause
| Click
| Seek int
| Tick nat

fun step :: "js_error + real \<Rightarrow> state \<Rightarrow> event \<Rightarrow> state" where
  "step g s (Select v gj m) = flight_select_change g v gj m s"
| "step g s (Load v gj m) = loadFlight_with g v gj m s"
| "step g s Reset = resetMap s"
| "step g s Play = playAnimation s"
| "step g s Pause = pauseAnimation s"
| "step g s Click = play_pause_click s"
| "step g s (Seek i) = state_of (slider_input i s)"
| "step g s (Tick h) = (if h \<in> intervals s then state_of (interval_callback s) else s)"

definition run :: "js_error + real \<Rightarrow> state \<Rightarrow> event list \<Rightarrow> state" where
  "run g s evs = foldl (step g) s evs"

subsection \<open>States\<close>

text \<open>
  What \<^verbatim>\<open>resetMap\<close> leaves behind, the state without a session: not playing and no
  timer running, no flight data, position 0, no current radar file, every layer off the
  map, the controls hidden and the slider disabled.
\<close>

definition stopped :: "state \<Rightarrow> bool" where
  "stopped s \<longleftrightarrow>
     \<not> isPlaying s \<and> intervals s = {} \<and> flightData s = None \<and> currentIndex s = 0
     \<and> currentRadarFile s = None
     \<and> (case flightPathLayer s of None \<Rightarrow> True | Some l \<Rightarrow> \<not> layer_on_map l)
     \<and> (case airplaneMarker s of None \<Rightarrow> True | Some m \<Rightarrow> \<not> marker_on_map m)
     \<and> (case radarOverlay s of None \<Rightarrow> True | Some r \<Rightarrow> \<not> overlay_on_map r)
     \<and> controls_hidden s \<and> slider_disabled s"

text \<open>
  What \<^verbatim>\<open>setupAnimation\<close> leaves behind when it completes, the loaded session: flight
  data with at least one point, radar metadata with at least one frame, the overlay and
  the marker created, and the slider enabled with the last index as its maximum.
\<close>

definition session_loaded :: "state \<Rightarrow> bool" where
  "session_loaded s \<longleftrightarrow>
     (case flightData s of
        None \<Rightarrow> False
      | Some fd \<Rightarrow> points fd \<noteq> [] \<and> slider_max s = int (length (points fd)) - 1)
     \<and> (case radarMeta s of None \<Rightarrow> False | Some meta \<Rightarrow> frames meta \<noteq> [])
     \<and> radarOverlay s \<noteq> None \<and> airplaneMarker s \<noteq> None \<and> \<not> slider_disabled s"

text \<open>The only timer that may be running is the one \<^verbatim>\<open>animationState.timer\<close> names,
  and only while playing.\<close>

definition timer_inv :: "state \<Rightarrow> bool" where
  "timer_inv s \<longleftrightarrow>
     (if isPlaying s then (\<exists>h. timer s = Some h \<and> intervals s = {h}) else intervals s = {})"

subsection \<open>Example inputs\<close>

text \<open>The closure variables as lines 3 to 16 initialise them, on a page whose controls
  start hidden and whose slider starts disabled.\<close>

definition page_start :: state where
  "page_start =
     \<lparr>flightData = None, radarOverlay = None, airplaneMarker = None, flightPathLayer = None,
      isPlaying = False, timer = None, currentIndex = 0, radarMeta = None,
      currentFlightId = None, currentRadarFile = None,
      intervals = {}, next_interval = 1, map_view = None,
      play_pause_text = ''Play'', play_pause_playing = False, controls_hidden = True,
      slider_max = 100, slider_value = 0, slider_disabled = True,
      timestamp_display = None, alerts = []\<rparr>"

text \<open>Scenario A of the specification: radar frames at 0 s and 15 s, track points at
  0 s, 10 s and 20 s (in milliseconds).\<close>

definition frames_A :: "radar_frame list" where
  "frames_A = [\<lparr>time = 0, fileName = ''f0''\<rparr>, \<lparr>time = 15000, fileName = ''f1''\<rparr>]"

definition track_A :: "feature list" where
  "track_A =
     [LineStringFeature [(-120, 38), (-121, 39)],
      PointFeature \<lparr>lon = -120, lat = 38, timestamp_iso = 0, seeding_type = None\<rparr>,
      PointFeature \<lparr>lon = -1205 / 10, lat = 385 / 10, timestamp_iso = 10000, seeding_type = Some ''Eject''\<rparr>,
      PointFeature \<lparr>lon = -121, lat = 39, timestamp_iso = 20000, seeding_type = Some ''BIP''\<rparr>]"

definition meta_A :: radar_meta where
  "meta_A = \<lparr>bounds = ((37, -122), (40, -119)),
             frames = [\<lparr>time = 15000, fileName = ''f1''\<rparr>, \<lparr>time = 0, fileName = ''f0''\<rparr>]\<rparr>"

text \<open>Two frames with the same timestamp, followed by a later one.\<close>

definition frames_tie :: "radar_frame list" where
  "frames_tie =
     [\<lparr>time = 0, fileName = ''a''\<rparr>, \<lparr>time = 0, fileName = ''b''\<rparr>, \<lparr>time = 5, fileName = ''c''\<rparr>]"

text \<open>The state after loading scenario A on the fresh page.\<close>

definition session_A :: state where
  "session_A = loadFlight ''A'' (Some track_A) (Some meta_A) page_start"

text \<open>A flight file without any point feature, and metadata without any frame.\<close>

definition track_empty :: "feature list" where
  "track_empty = [LineStringFeature [(-120, 38), (-121, 39)]]"

definition meta_empty :: radar_meta where
  "meta_empty = \<lparr>bounds = ((37, -122), (40, -119)), frames = []\<rparr>"


text \<open>The same load if \<^verbatim>\<open>start_point[0]\<close> evaluated to the longitude of the first
  point, as \<^verbatim>\<open>startPoint[0]\<close> does.\<close>

definition session_A_drawn :: state where
  "session_A_drawn = loadFlight_with (Inr (-120)) ''A'' (Some track_A) (Some meta_A) page_start"

text \<open>A busy sequence: play, load twice in a row during playback, play twice, seek,
  toggle, reset.\<close>

definition events_two_loads :: "event list" where
  "events_two_loads =
     [Load ''A'' (Some track_A) (Some meta_A), Play, Tick 1,
      Load ''B'' (Some track_A) (Some meta_A), Load ''C'' (Some track_A) (Some meta_A),
      Play, Play, Tick 1, Tick 2, Seek 7, Click, Click, Reset, Click]"

section \<open>Properties of frame resolution\<close>

subsection \<open>The forward scan\<close>

lemma correctFrame_loop_takeWhile:
  "correctFrame_loop cur fs t =
     (if takeWhile (\<lambda>f. time f \<le> t) fs = [] then cur
      else Some (last (takeWhile (\<lambda>f. time f \<le> t) fs)))"
  by (induction fs arbitrary: cur) auto

lemma last_takeWhile_nth:
  assumes "takeWhile P xs \<noteq> []"
  shows "last (takeWhile P xs) = xs ! (length (takeWhile P xs) - 1)"
proof -
  have "last (takeWhile P xs) = takeWhile P xs ! (length (takeWhile P xs) - 1)"
    using assms by (rule last_conv_nth)
  also have "\<dots> = xs ! (length (takeWhile P xs) - 1)"
    using assms by (intro takeWhile_nth) simp
  finally show ?thesis .
qed

lemma correctFrame_effective:
  assumes "fs \<noteq> []"
  shows "correctFrame fs t = Some (fs ! effective_index fs t)"
proof (cases "takeWhile (\<lambda>f. time f \<le> t) fs = []")
  case True
  then show ?thesis
    using assms by (simp add: correctFrame_def correctFrame_loop_takeWhile at_index_def effective_index_def)
next
  case False
  then show ?thesis
    by (simp add: correctFrame_def correctFrame_loop_takeWhile effective_index_def last_takeWhile_nth)
qed

lemma effective_index_less:
  "fs \<noteq> [] \<Longrightarrow> effective_index fs t < length fs"
  using length_takeWhile_le [of "\<lambda>f. time f \<le> t" fs]
  by (cases fs) (auto simp: effective_index_def less_Suc_eq_le)

text \<open>On a sorted sequence the prefix the loop walks holds every frame that is not later
  than the query.\<close>

lemma sorted_takeWhile_filter:
  "sorted (map time fs) \<Longrightarrow> takeWhile (\<lambda>f. time f \<le> t) fs = filter (\<lambda>f. time f \<le> t) fs"
proof (induction fs)
  case Nil
  then show ?case by simp
next
  case (Cons f fs)
  show ?case
  proof (cases "time f \<le> t")
    case True
    with Cons show ?thesis by simp
  next
    case False
    with Cons.prems have "\<forall>g\<in>set fs. \<not> time g \<le> t" by auto
    then have "filter (\<lambda>f. time f \<le> t) fs = []" by (simp add: filter_empty_conv)
    with False show ?thesis by simp
  qed
qed

lemma sorted_index_in_prefix:
  "sorted (map time fs) \<Longrightarrow> j < length fs \<Longrightarrow> time (fs ! j) \<le> t
     \<Longrightarrow> j < length (takeWhile (\<lambda>f. time f \<le> t) fs)"
proof (induction fs arbitrary: j)
  case Nil
  then show ?case by simp
next
  case (Cons f fs)
  have "time f \<le> time ((f # fs) ! j)"
    using Cons.prems(1,2) by (cases j) auto
  with Cons.prems(3) have "time f \<le> t" by simp
  with Cons show ?case by (cases j) auto
qed

lemma index_le_effective:
  assumes "sorted (map time fs)" "j < length fs" "time (fs ! j) \<le> t"
  shows "j \<le> effective_index fs t"
  using sorted_index_in_prefix [OF assms] by (simp add: effective_index_def)

lemma effective_time_le:
  assumes "f \<in> set fs" "time f \<le> t" "sorted (map time fs)"
  shows "time (fs ! effective_index fs t) \<le> t"
proof -
  have "takeWhile (\<lambda>f. time f \<le> t) fs \<noteq> []"
    using assms by (auto simp: sorted_takeWhile_filter filter_empty_conv)
  then have "fs ! effective_index fs t \<in> set (takeWhile (\<lambda>f. time f \<le> t) fs)"
    unfolding effective_index_def
    by (metis last_in_set last_takeWhile_nth)
  then show ?thesis by (auto dest: set_takeWhileD)
qed

lemma effective_index_zero:
  assumes "\<forall>f\<in>set fs. \<not> time f \<le> t"
  shows "effective_index fs t = 0"
proof -
  have "takeWhile (\<lambda>f. time f \<le> t) fs = []"
    using assms by (cases fs) auto
  then show ?thesis by (simp add: effective_index_def)
qed

subsection \<open>The backward scan\<close>

lemma radarFrameIndex_loop_found:
  assumes "j < n" "ts ! j \<le> t"
  shows "radarFrameIndex_loop ts n t < n \<and> ts ! radarFrameIndex_loop ts n t \<le> t
         \<and> j \<le> radarFrameIndex_loop ts n t"
  using assms
proof (induction n)
  case 0
  then show ?case by simp
next
  case (Suc n)
  show ?case
  proof (cases "ts ! n \<le> t")
    case True
    with Suc.prems show ?thesis by simp
  next
    case False
    with Suc.prems have "j < n" by (cases "j = n") auto
    with Suc.IH Suc.prems False show ?thesis by auto
  qed
qed

lemma radarFrameIndex_loop_none:
  "\<forall>j<n. \<not> ts ! j \<le> t \<Longrightarrow> radarFrameIndex_loop ts n t = 0"
  by (induction n) auto

lemma radarFrameIndex_effective:
  assumes "sorted (map time fs)"
  shows "radarFrameIndex (map time fs) t = effective_index fs t"
proof (cases "\<exists>f\<in>set fs. time f \<le> t")
  case True
  then obtain j where j: "j < length fs" "time (fs ! j) \<le> t"
    by (auto simp: in_set_conv_nth)
  let ?r = "radarFrameIndex (map time fs) t"
  have "?r < length fs \<and> map time fs ! ?r \<le> t"
    unfolding radarFrameIndex_def
    using j radarFrameIndex_loop_found [of j "length fs" "map time fs" t] by auto
  then have r: "?r < length fs" "time (fs ! ?r) \<le> t" by auto
  then have "?r \<le> effective_index fs t"
    using index_le_effective [OF assms, of ?r t] by simp
  moreover have "effective_index fs t \<le> ?r"
  proof -
    have e: "effective_index fs t < length fs"
      using j(1) by (intro effective_index_less) auto
    have "time (fs ! effective_index fs t) \<le> t"
      using True assms effective_time_le by blast
    then show ?thesis
      unfolding radarFrameIndex_def
      using e radarFrameIndex_loop_found [of "effective_index fs t" "length fs" "map time fs" t]
      by auto
  qed
  ultimately show ?thesis by simp
next
  case False
  then have "\<forall>j<length fs. \<not> map time fs ! j \<le> t" by auto
  then have "radarFrameIndex (map time fs) t = 0"
    by (simp add: radarFrameIndex_def radarFrameIndex_loop_none)
  with False show ?thesis by (simp add: effective_index_zero)
qed

subsection \<open>What the resolver selects\<close>

lemma takeWhile_length_mono:
  "(\<And>x. P x \<Longrightarrow> Q x) \<Longrightarrow> length (takeWhile P xs) \<le> length (takeWhile Q xs)"
  by (induction xs) auto

lemma effective_index_mono:
  "t1 \<le> t2 \<Longrightarrow> effective_index fs t1 \<le> effective_index fs t2"
  unfolding effective_index_def
  using takeWhile_length_mono [of "\<lambda>f. time f \<le> t1" "\<lambda>f. time f \<le> t2" fs]
  by auto

lemma sorted_time_nth_mono:
  "sorted (map time fs) \<Longrightarrow> i \<le> j \<Longrightarrow> j < length fs \<Longrightarrow> time (fs ! i) \<le> time (fs ! j)"
  using sorted_nth_mono [of "map time fs" i j] by simp

text \<open>
  Claim C1. On a non-empty sequence of radar frames sorted by time, the resolution step
  selects a frame of the sequence: when some frame is not later than the query \<open>t\<close> it is
  one that is not later than \<open>t\<close> and no frame that is not later than \<open>t\<close> has a greater
  timestamp; when \<open>t\<close> is earlier than every frame it is the frame at index 0. The backward
  scan of the other revision arrives at the same index.
\<close>

theorem frame_resolution_greatest_not_later:
  assumes "fs \<noteq> []" and "sorted (map time fs)"
  shows "\<exists>i<length fs. correctFrame fs t = Some (fs ! i) \<and> radarFrameIndex (map time fs) t = i \<and>
           (if \<exists>f\<in>set fs. time f \<le> t
            then time (fs ! i) \<le> t \<and> (\<forall>f\<in>set fs. time f \<le> t \<longrightarrow> time f \<le> time (fs ! i))
            else i = 0)"
proof (intro exI conjI)
  let ?i = "effective_index fs t"
  show less: "?i < length fs" using assms(1) by (rule effective_index_less)
  show "correctFrame fs t = Some (fs ! ?i)" using assms(1) by (rule correctFrame_effective)
  show "radarFrameIndex (map time fs) t = ?i" using assms(2) by (rule radarFrameIndex_effective)
  show "if \<exists>f\<in>set fs. time f \<le> t
        then time (fs ! ?i) \<le> t \<and> (\<forall>f\<in>set fs. time f \<le> t \<longrightarrow> time f \<le> time (fs ! ?i))
        else ?i = 0"
  proof (cases "\<exists>f\<in>set fs. time f \<le> t")
    case True
    then have "time (fs ! ?i) \<le> t" using assms(2) effective_time_le by blast
    moreover have "time f \<le> time (fs ! ?i)" if "f \<in> set fs" "time f \<le> t" for f
    proof -
      from that(1) obtain j where j: "j < length fs" "fs ! j = f"
        by (auto simp: in_set_conv_nth)
      with that(2) have "j \<le> ?i" using index_le_effective [OF assms(2), of j t] by simp
      then show ?thesis using sorted_time_nth_mono [OF assms(2) _ less] j by auto
    qed
    ultimately show ?thesis using True by auto
  next
    case False
    then show ?thesis by (simp add: effective_index_zero)
  qed
qed

theorem frame_resolution_greatest_not_later_witness:
  "frames_A \<noteq> [] \<and> sorted (map time frames_A) \<and>
   (\<exists>i<length frames_A. correctFrame frames_A 10000 = Some (frames_A ! i)
        \<and> radarFrameIndex (map time frames_A) 10000 = i \<and>
           (if \<exists>f\<in>set frames_A. time f \<le> 10000
            then time (frames_A ! i) \<le> 10000
                 \<and> (\<forall>f\<in>set frames_A. time f \<le> 10000 \<longrightarrow> time f \<le> time (frames_A ! i))
            else i = 0))
   \<and> correctFrame frames_A 10000 = Some \<lparr>time = 0, fileName = ''f0''\<rparr>
   \<and> correctFrame frames_A 20000 = Some \<lparr>time = 15000, fileName = ''f1''\<rparr>
   \<and> correctFrame frames_A (-5) = Some \<lparr>time = 0, fileName = ''f0''\<rparr>"
proof -
  have ne: "frames_A \<noteq> []" by (simp add: frames_A_def)
  have so: "sorted (map time frames_A)" by (simp add: frames_A_def)
  have ev: "correctFrame frames_A 10000 = Some \<lparr>time = 0, fileName = ''f0''\<rparr>"
    "correctFrame frames_A 20000 = Some \<lparr>time = 15000, fileName = ''f1''\<rparr>"
    "correctFrame frames_A (-5) = Some \<lparr>time = 0, fileName = ''f0''\<rparr>"
    by (simp_all add: frames_A_def correctFrame_def at_index_def)
  from ne so frame_resolution_greatest_not_later [OF ne so, of 10000] ev show ?thesis
    by blast
qed

text \<open>
  Claim C2. The resolver is monotone: on a non-empty sorted sequence, for queries
  \<open>t1 \<le> t2\<close> the frame resolved for \<open>t1\<close> has a timestamp not greater than that of the
  frame resolved for \<open>t2\<close>.
\<close>

theorem frame_resolution_monotone:
  assumes "fs \<noteq> []" and "sorted (map time fs)" and "t1 \<le> t2"
  shows "\<exists>f1 f2. correctFrame fs t1 = Some f1 \<and> correctFrame fs t2 = Some f2
           \<and> time f1 \<le> time f2"
proof -
  have "time (fs ! effective_index fs t1) \<le> time (fs ! effective_index fs t2)"
    using assms(2) effective_index_mono [OF assms(3)] effective_index_less [OF assms(1)]
    by (rule sorted_time_nth_mono)
  then show ?thesis by (simp add: correctFrame_effective [OF assms(1)])
qed

theorem frame_resolution_monotone_witness:
  "frames_A \<noteq> [] \<and> sorted (map time frames_A) \<and> (10000::int) \<le> 20000 \<and>
   (\<exists>f1 f2. correctFrame frames_A 10000 = Some f1 \<and> correctFrame frames_A 20000 = Some f2
           \<and> time f1 \<le> time f2)"
proof -
  have ne: "frames_A \<noteq> []" by (simp add: frames_A_def)
  have so: "sorted (map time frames_A)" by (simp add: frames_A_def)
  have le: "(10000::int) \<le> 20000" by simp
  from ne so le frame_resolution_monotone [OF ne so le] show ?thesis by blast
qed

text \<open>
  Claim C3 as stated asks, for every query \<open>t \<ge> ts\<close>, for the last of the frames with
  timestamp \<open>ts\<close>. With frames at 0, 0 and 5 and the query 10, both scans select the frame
  at 5 (index 2), not the last frame at 0.
\<close>

theorem tie_break_counterexample:
  "sorted (map time frames_tie) \<and> time (frames_tie ! 0) = 0 \<and> time (frames_tie ! 1) = 0
   \<and> (0::int) \<le> 10
   \<and> correctFrame frames_tie 10 = Some (frames_tie ! 2)
   \<and> radarFrameIndex (map time frames_tie) 10 = 2
   \<and> time (frames_tie ! 2) \<noteq> 0"
  by (simp add: frames_tie_def correctFrame_def at_index_def radarFrameIndex_def numeral_2_eq_2)

text \<open>
  Claim C3, amended. On a sorted sequence in which \<open>ts\<close> occurs, for every query
  \<open>t \<ge> ts\<close> such that no frame has a timestamp later than \<open>ts\<close> and not later than \<open>t\<close>,
  the resolver returns the frame with timestamp \<open>ts\<close> at the greatest index among the
  frames with that timestamp.
\<close>

theorem tie_break_last_of_equal:
  assumes "sorted (map time fs)" and "j < length fs" and "time (fs ! j) = ts" and "ts \<le> t"
    and "\<forall>f\<in>set fs. time f \<le> t \<longrightarrow> time f \<le> ts"
  shows "\<exists>i<length fs. correctFrame fs t = Some (fs ! i) \<and> radarFrameIndex (map time fs) t = i
           \<and> time (fs ! i) = ts \<and> (\<forall>k<length fs. time (fs ! k) = ts \<longrightarrow> k \<le> i)"
proof (intro exI conjI allI impI)
  let ?i = "effective_index fs t"
  from assms(2) have ne: "fs \<noteq> []" by auto
  show less: "?i < length fs" using ne by (rule effective_index_less)
  show "correctFrame fs t = Some (fs ! ?i)" using ne by (rule correctFrame_effective)
  show "radarFrameIndex (map time fs) t = ?i" using assms(1) by (rule radarFrameIndex_effective)
  have jt: "time (fs ! j) \<le> t" using assms(3,4) by simp
  then have "j \<le> ?i" using assms(1,2) by (intro index_le_effective)
  then have lower: "ts \<le> time (fs ! ?i)"
    using sorted_time_nth_mono [OF assms(1) _ less, of j] assms(3) by simp
  have "fs ! j \<in> set fs" using assms(2) by simp
  with jt have "time (fs ! ?i) \<le> t" using assms(1) effective_time_le by blast
  moreover have "fs ! ?i \<in> set fs" using less by simp
  ultimately have "time (fs ! ?i) \<le> ts" using assms(5) by blast
  with lower show "time (fs ! ?i) = ts" by simp
  show "k \<le> ?i" if "k < length fs" "time (fs ! k) = ts" for k
    using that assms(1,4) by (intro index_le_effective) simp_all
qed

theorem tie_break_last_of_equal_witness:
  "sorted (map time frames_tie) \<and> (1::nat) < length frames_tie \<and> time (frames_tie ! 1) = 0
   \<and> (0::int) \<le> 3 \<and> filter (\<lambda>f. 0 < time f \<and> time f \<le> 3) frames_tie = []
   \<and> (\<exists>i<length frames_tie. correctFrame frames_tie 3 = Some (frames_tie ! i)
         \<and> radarFrameIndex (map time frames_tie) 3 = i
         \<and> time (frames_tie ! i) = 0 \<and> (\<forall>k<length frames_tie. time (frames_tie ! k) = 0 \<longrightarrow> k \<le> i))
   \<and> correctFrame frames_tie 3 = Some \<lparr>time = 0, fileName = ''b''\<rparr>"
proof -
  have so: "sorted (map time frames_tie)" by (simp add: frames_tie_def)
  have len: "(1::nat) < length frames_tie" by (simp add: frames_tie_def)
  have ts: "time (frames_tie ! 1) = 0" by (simp add: frames_tie_def)
  have le: "(0::int) \<le> 3" by simp
  have gap: "\<forall>f\<in>set frames_tie. time f \<le> 3 \<longrightarrow> time f \<le> 0" by (simp add: frames_tie_def)
  have ev: "correctFrame frames_tie 3 = Some \<lparr>time = 0, fileName = ''b''\<rparr>"
    by (simp add: frames_tie_def correctFrame_def at_index_def)
  have none: "filter (\<lambda>f. 0 < time f \<and> time f \<le> 3) frames_tie = []"
    by (simp add: frames_tie_def)
  from so len ts le none ev tie_break_last_of_equal [OF so len ts le gap] show ?thesis
    by blast
qed

section \<open>Properties of the sort\<close>








section \<open>What each function leaves alone\<close>

lemma updateFrame_fields:
  "currentIndex (state_of (updateFrame i s)) = i"
  "flightData (state_of (updateFrame i s)) = flightData s"
  "radarMeta (state_of (updateFrame i s)) = radarMeta s"
  "isPlaying (state_of (updateFrame i s)) = isPlaying s"
  "timer (state_of (updateFrame i s)) = timer s"
  "intervals (state_of (updateFrame i s)) = intervals s"
  by (simp_all add: updateFrame_def Let_def split: option.splits)

lemma updateFrame_no_point:
  assumes "flightData s = Some fd" and "at_index (points fd) i = None"
  shows "updateFrame i s = Normal (s\<lparr>currentIndex := i\<rparr>)"
  using assms by (simp add: updateFrame_def)

lemma pauseAnimation_fields:
  "\<not> isPlaying (pauseAnimation s)"
  "currentIndex (pauseAnimation s) = currentIndex s"
  "flightData (pauseAnimation s) = flightData s"
  "timer (pauseAnimation s) = timer s"
  by (simp_all add: pauseAnimation_def)

lemma pauseAnimation_idem: "pauseAnimation (pauseAnimation s) = pauseAnimation s"
  by (simp add: pauseAnimation_def)

lemma timer_inv_pause:
  "timer_inv s \<Longrightarrow> intervals (pauseAnimation s) = {}"
  by (auto simp: timer_inv_def pauseAnimation_def clearInterval_def split: if_splits)

lemma timer_inv_same:
  "isPlaying s' = isPlaying s \<Longrightarrow> timer s' = timer s \<Longrightarrow> intervals s' = intervals s
    \<Longrightarrow> timer_inv s' = timer_inv s"
  by (simp add: timer_inv_def)

lemma timer_inv_pauseAnimation: "timer_inv s \<Longrightarrow> timer_inv (pauseAnimation s)"
  using timer_inv_pause [of s] by (simp add: timer_inv_def pauseAnimation_fields)

lemma timer_inv_playAnimation: "timer_inv s \<Longrightarrow> timer_inv (playAnimation s)"
  by (auto simp: timer_inv_def playAnimation_def split: if_splits)

lemma resetMap_fields:
  "isPlaying (resetMap s) = isPlaying (pauseAnimation s)"
  "timer (resetMap s) = timer (pauseAnimation s)"
  "intervals (resetMap s) = intervals (pauseAnimation s)"
  by (simp_all add: resetMap_def Let_def)

section \<open>What load and setup leave alone\<close>

lemma updateFrame_kept:
  "alerts (state_of (updateFrame i s)) = alerts s"
  "controls_hidden (state_of (updateFrame i s)) = controls_hidden s"
  "slider_disabled (state_of (updateFrame i s)) = slider_disabled s"
  by (simp_all add: updateFrame_def Let_def split: option.splits)

lemma drawFlightPath_fields:
  "flightData (state_of (drawFlightPath s)) = flightData s"
  "radarMeta (state_of (drawFlightPath s)) = radarMeta s"
  "isPlaying (state_of (drawFlightPath s)) = isPlaying s"
  "timer (state_of (drawFlightPath s)) = timer s"
  "intervals (state_of (drawFlightPath s)) = intervals s"
  "currentIndex (state_of (drawFlightPath s)) = currentIndex s"
  "currentRadarFile (state_of (drawFlightPath s)) = currentRadarFile s"
  "controls_hidden (state_of (drawFlightPath s)) = controls_hidden s"
  "slider_disabled (state_of (drawFlightPath s)) = slider_disabled s"
  "alerts (state_of (drawFlightPath s)) = alerts s"
  by (simp_all add: drawFlightPath_def split: option.splits)

lemma drawFlightPath_Normal:
  "flightData s = Some fd \<Longrightarrow> drawFlightPath s = Normal (state_of (drawFlightPath s))"
  by (simp add: drawFlightPath_def split: option.splits)

lemma setupAnimation_with_fields:
  "flightData (state_of (setupAnimation_with g s)) = flightData s"
  "radarMeta (state_of (setupAnimation_with g s)) = radarMeta s"
  "isPlaying (state_of (setupAnimation_with g s)) = isPlaying s"
  "timer (state_of (setupAnimation_with g s)) = timer s"
  "intervals (state_of (setupAnimation_with g s)) = intervals s"
  "alerts (state_of (setupAnimation_with g s)) = alerts s"
  "controls_hidden (state_of (setupAnimation_with g s)) = controls_hidden s"
  by (simp_all add: setupAnimation_with_def Let_def updateFrame_fields updateFrame_kept
      split: option.splits sum.splits)

text \<open>Without a first point or a first frame the setup throws before it enables the
  slider or names a radar file.\<close>

lemma setupAnimation_with_empty:
  assumes "flightData s = Some fd" and "radarMeta s = Some meta"
    and "points fd = [] \<or> frames meta = []"
  shows "thrown (setupAnimation_with g s) \<noteq> None
       \<and> currentIndex (state_of (setupAnimation_with g s)) = currentIndex s
       \<and> currentRadarFile (state_of (setupAnimation_with g s)) = currentRadarFile s
       \<and> slider_disabled (state_of (setupAnimation_with g s)) = slider_disabled s"
  using assms
  by (auto simp: setupAnimation_with_def at_index_def Let_def split: option.splits sum.splits)

text \<open>The state in which \<^verbatim>\<open>loadFlight\<close> calls \<^verbatim>\<open>drawFlightPath\<close>.\<close>

lemma loadFlight_with_both_fetched:
  "loadFlight_with g v (Some features) (Some meta) s =
     (case setupAnimation_with g (state_of (drawFlightPath
        ((resetMap s)\<lparr>currentFlightId := Some v,
           flightData := Some \<lparr>path = first_line_string features, points = point_features features\<rparr>,
           radarMeta := Some (meta\<lparr>frames := array_sort compareFn (frames meta)\<rparr>)\<rparr>))) of
        Normal s4 \<Rightarrow> s4\<lparr>controls_hidden := False\<rparr>
      | Throw e s4 \<Rightarrow> loadFlight_catch s4)"
  (is "_ = (case setupAnimation_with g (state_of (drawFlightPath ?s3)) of
              Normal s4 \<Rightarrow> _ s4 | Throw e s4 \<Rightarrow> _ s4)")
proof -
  have "drawFlightPath ?s3 = Normal (state_of (drawFlightPath ?s3))"
    by (rule drawFlightPath_Normal) simp
  then have "and_then (drawFlightPath ?s3) (setupAnimation_with g) =
      setupAnimation_with g (state_of (drawFlightPath ?s3))"
    by (metis and_then.simps(1))
  then show ?thesis by (simp add: loadFlight_with_def Let_def)
qed

lemma load_outcome_fields:
  "flightData (case c of Normal s4 \<Rightarrow> s4\<lparr>controls_hidden := False\<rparr> | Throw e s4 \<Rightarrow> loadFlight_catch s4)
     = flightData (state_of c)"
  "radarMeta (case c of Normal s4 \<Rightarrow> s4\<lparr>controls_hidden := False\<rparr> | Throw e s4 \<Rightarrow> loadFlight_catch s4)
     = radarMeta (state_of c)"
  "isPlaying (case c of Normal s4 \<Rightarrow> s4\<lparr>controls_hidden := False\<rparr> | Throw e s4 \<Rightarrow> loadFlight_catch s4)
     = isPlaying (state_of c)"
  "timer (case c of Normal s4 \<Rightarrow> s4\<lparr>controls_hidden := False\<rparr> | Throw e s4 \<Rightarrow> loadFlight_catch s4)
     = timer (state_of c)"
  "intervals (case c of Normal s4 \<Rightarrow> s4\<lparr>controls_hidden := False\<rparr> | Throw e s4 \<Rightarrow> loadFlight_catch s4)
     = intervals (state_of c)"
  "currentIndex (case c of Normal s4 \<Rightarrow> s4\<lparr>controls_hidden := False\<rparr> | Throw e s4 \<Rightarrow> loadFlight_catch s4)
     = currentIndex (state_of c)"
  "currentRadarFile (case c of Normal s4 \<Rightarrow> s4\<lparr>controls_hidden := False\<rparr> | Throw e s4 \<Rightarrow> loadFlight_catch s4)
     = currentRadarFile (state_of c)"
  "slider_disabled (case c of Normal s4 \<Rightarrow> s4\<lparr>controls_hidden := False\<rparr> | Throw e s4 \<Rightarrow> loadFlight_catch s4)
     = slider_disabled (state_of c)"
  by (cases c; simp add: loadFlight_catch_def)+

lemma resetMap_result:
  "flightData (resetMap s) = None" "currentIndex (resetMap s) = 0"
  "currentRadarFile (resetMap s) = None" "controls_hidden (resetMap s)"
  "slider_disabled (resetMap s)" "alerts (resetMap s) = alerts s"
  "radarMeta (resetMap s) = radarMeta s"
  by (simp_all add: resetMap_def Let_def pauseAnimation_def)

lemma loadFlight_with_fetch_failed:
  assumes "gj = None \<or> m = None"
  shows "isPlaying (loadFlight_with g v gj m s) = isPlaying (pauseAnimation s)
       \<and> timer (loadFlight_with g v gj m s) = timer (pauseAnimation s)
       \<and> intervals (loadFlight_with g v gj m s) = intervals (pauseAnimation s)"
  using assms
  by (cases gj) (auto simp: loadFlight_with_def Let_def loadFlight_catch_def resetMap_fields)

lemma loadFlight_with_fetched:
  "isPlaying (loadFlight_with g v (Some features) (Some meta) s) = isPlaying (pauseAnimation s)
   \<and> timer (loadFlight_with g v (Some features) (Some meta) s) = timer (pauseAnimation s)
   \<and> intervals (loadFlight_with g v (Some features) (Some meta) s) = intervals (pauseAnimation s)"
  by (simp add: loadFlight_with_both_fetched load_outcome_fields setupAnimation_with_fields
      drawFlightPath_fields resetMap_fields)

lemma loadFlight_with_fields:
  "isPlaying (loadFlight_with g v gj m s) = isPlaying (pauseAnimation s)"
  "timer (loadFlight_with g v gj m s) = timer (pauseAnimation s)"
  "intervals (loadFlight_with g v gj m s) = intervals (pauseAnimation s)"
  using loadFlight_with_fetch_failed [of gj m g v s] loadFlight_with_fetched [of g v _ _ s]
  by (cases gj; cases m; simp)+

lemma loadFlight_with_data:
  "flightData (loadFlight_with g v (Some features) (Some meta) s) =
     Some \<lparr>path = first_line_string features, points = point_features features\<rparr>"
  "radarMeta (loadFlight_with g v (Some features) (Some meta) s) =
     Some (meta\<lparr>frames := array_sort compareFn (frames meta)\<rparr>)"
  by (simp_all add: loadFlight_with_both_fetched load_outcome_fields setupAnimation_with_fields
      drawFlightPath_fields)

section \<open>The example session\<close>

lemmas load_defs = loadFlight_def loadFlight_with_def loadFlight_catch_def drawFlightPath_def
  setupAnimation_with_def start_point_0_def resetMap_def pauseAnimation_def point_features_def
  at_index_def array_sort_def compareFn_def

lemma session_A_flightData:
  "flightData session_A =
     Some \<lparr>path = Some [(-120, 38), (-121, 39)],
           points = [\<lparr>lon = -120, lat = 38, timestamp_iso = 0, seeding_type = None\<rparr>,
                     \<lparr>lon = -1205 / 10, lat = 385 / 10, timestamp_iso = 10000, seeding_type = Some ''Eject''\<rparr>,
                     \<lparr>lon = -121, lat = 39, timestamp_iso = 20000, seeding_type = Some ''BIP''\<rparr>]\<rparr>"
  by (simp add: session_A_def track_A_def meta_A_def page_start_def load_defs)

lemma session_A_position: "currentIndex session_A = 0" "\<not> isPlaying session_A"
  "intervals session_A = {}" "next_interval session_A = 1"
  "airplaneMarker session_A = None" "radarOverlay session_A = None"
  by (simp_all add: session_A_def track_A_def meta_A_def page_start_def load_defs)

lemma session_A_drawn_eval:
  "session_A_drawn =
     \<lparr>flightData =
        Some \<lparr>path = Some [(-120, 38), (-121, 39)],
              points = [\<lparr>lon = -120, lat = 38, timestamp_iso = 0, seeding_type = None\<rparr>,
                        \<lparr>lon = -1205 / 10, lat = 385 / 10, timestamp_iso = 10000, seeding_type = Some ''Eject''\<rparr>,
                        \<lparr>lon = -121, lat = 39, timestamp_iso = 20000, seeding_type = Some ''BIP''\<rparr>]\<rparr>,
      radarOverlay = Some \<lparr>url = ''processed_data/A/radar_frames/f0'',
                            overlay_bounds = ((37, -122), (40, -119)), overlay_on_map = True\<rparr>,
      airplaneMarker = Some \<lparr>latLng = (38, -120), fillColor = Some ''#ff7800'', marker_on_map = True\<rparr>,
      flightPathLayer = Some \<lparr>layer_path = [(-120, 38), (-121, 39)], layer_on_map = True\<rparr>,
      isPlaying = False, timer = None, currentIndex = 0,
      radarMeta = Some \<lparr>bounds = ((37, -122), (40, -119)),
                         frames = [\<lparr>time = 0, fileName = ''f0''\<rparr>, \<lparr>time = 15000, fileName = ''f1''\<rparr>]\<rparr>,
      currentFlightId = Some ''A'', currentRadarFile = Some ''f0'',
      intervals = {}, next_interval = 1, map_view = Some [(-120, 38), (-121, 39)],
      play_pause_text = ''Play'', play_pause_playing = False, controls_hidden = False,
      slider_max = 2, slider_value = 0, slider_disabled = False,
      timestamp_display = Some 0, alerts = []\<rparr>"
  by (simp add: session_A_drawn_def track_A_def meta_A_def page_start_def load_defs
      updateFrame_def correctFrame_def radar_url_def seeding_color_def)

text \<open>Scenario A played on the drawn session: the point at 10 s keeps frame \<open>f0\<close>, the
  point at 20 s brings in \<open>f1\<close>.\<close>

lemma scenario_A_frames:
  "thrown (updateFrame 1 session_A_drawn) = None"
  "currentRadarFile (state_of (updateFrame 1 session_A_drawn)) = Some ''f0''"
  "radarOverlay (state_of (updateFrame 1 session_A_drawn)) = radarOverlay session_A_drawn"
  "airplaneMarker (state_of (updateFrame 1 session_A_drawn)) =
     Some \<lparr>latLng = (385 / 10, -1205 / 10), fillColor = Some ''#ffff00'', marker_on_map = True\<rparr>"
  "currentRadarFile (state_of (updateFrame 2 session_A_drawn)) = Some ''f1''"
  "map_option url (radarOverlay (state_of (updateFrame 2 session_A_drawn))) =
     Some ''processed_data/A/radar_frames/f1''"
  by (simp_all add: session_A_drawn_eval updateFrame_def at_index_def correctFrame_def
      radar_url_def seeding_color_def)

section \<open>Showing a point, seeking and ticking\<close>

text \<open>
  With the overlay and the marker in place, \<^verbatim>\<open>updateFrame\<close> at an index that has a track
  point completes: the current radar file is the one of the frame the resolver selects
  for the time of the point, the overlay is left alone when that file is already
  current, and marker, slider and time label show the point.
\<close>

lemma updateFrame_in_range:
  assumes "flightData s = Some fd" and "at_index (points fd) i = Some p"
    and "radarMeta s = Some meta" and "frames meta \<noteq> []"
    and "radarOverlay s = Some ov" and "airplaneMarker s = Some mk"
  shows "thrown (updateFrame i s) = None"
    and "currentRadarFile (state_of (updateFrame i s)) =
           Some (fileName (frames meta ! effective_index (frames meta) (timestamp_iso p)))"
    and "airplaneMarker (state_of (updateFrame i s)) =
           Some (mk\<lparr>latLng := (lat p, lon p), fillColor := Some (seeding_color (seeding_type p))\<rparr>)"
    and "slider_value (state_of (updateFrame i s)) = i"
    and "timestamp_display (state_of (updateFrame i s)) = Some (timestamp_iso p)"
    and "currentRadarFile s =
           Some (fileName (frames meta ! effective_index (frames meta) (timestamp_iso p)))
           \<Longrightarrow> radarOverlay (state_of (updateFrame i s)) = radarOverlay s"
  using assms
  by (simp_all add: updateFrame_def Let_def correctFrame_effective)

lemma updateFrame_out_of_range_aux:
  assumes "flightData s = Some fd" and "i < 0 \<or> int (length (points fd)) \<le> i"
  shows "updateFrame i s = Normal (s\<lparr>currentIndex := i\<rparr>)"
proof -
  from assms(2) have "at_index (points fd) i = None"
    by (auto simp: at_index_def)
  with assms(1) show ?thesis by (rule updateFrame_no_point)
qed

text \<open>
  Claim C10. With flight data loaded, \<^verbatim>\<open>updateFrame\<close> called with an index that has no
  track point (negative, or not below the number of points) stores that index as the
  current position and returns normally with every other part of the state as it was:
  radar overlay and current radar file, marker position and colour, slider value and
  time label.
\<close>

theorem updateFrame_out_of_range:
  assumes "flightData s = Some fd"
    and "pointIndex < 0 \<or> int (length (points fd)) \<le> pointIndex"
  shows "updateFrame pointIndex s = Normal (s\<lparr>currentIndex := pointIndex\<rparr>)"
  using assms by (rule updateFrame_out_of_range_aux)

theorem updateFrame_out_of_range_witness:
  "updateFrame 7 session_A = Normal (session_A\<lparr>currentIndex := 7\<rparr>)
   \<and> updateFrame (-1) session_A_drawn = Normal (session_A_drawn\<lparr>currentIndex := -1\<rparr>)
   \<and> radarOverlay (state_of (updateFrame 3 session_A_drawn)) = radarOverlay session_A_drawn
   \<and> slider_value (state_of (updateFrame 3 session_A_drawn)) = 0"
proof -
  let ?fd = "\<lparr>path = Some [(-120, 38), (-121, 39)],
           points = [\<lparr>lon = -120, lat = 38, timestamp_iso = 0, seeding_type = None\<rparr>,
                     \<lparr>lon = -1205 / 10, lat = 385 / 10, timestamp_iso = 10000, seeding_type = Some ''Eject''\<rparr>,
                     \<lparr>lon = -121, lat = 39, timestamp_iso = 20000, seeding_type = Some ''BIP''\<rparr>]\<rparr>"
  have fd: "flightData session_A = Some ?fd" by (rule session_A_flightData)
  have fd': "flightData session_A_drawn = Some ?fd" by (simp add: session_A_drawn_eval)
  have hi: "(7::int) < 0 \<or> int (length (points ?fd)) \<le> 7" by simp
  have lo: "(-1::int) < 0 \<or> int (length (points ?fd)) \<le> -1" by simp
  have eq: "(3::int) < 0 \<or> int (length (points ?fd)) \<le> 3" by simp
  have "slider_value session_A_drawn = 0" by (simp add: session_A_drawn_eval)
  with updateFrame_out_of_range [OF fd hi] updateFrame_out_of_range [OF fd' lo]
    updateFrame_out_of_range [OF fd' eq]
  show ?thesis by simp
qed

text \<open>What \<^verbatim>\<open>updateFrame\<close> leaves of a loaded session.\<close>

lemma updateFrame_session:
  "slider_max (state_of (updateFrame i s)) = slider_max s"
  "(radarOverlay (state_of (updateFrame i s)) = None) = (radarOverlay s = None)"
  "(airplaneMarker (state_of (updateFrame i s)) = None) = (airplaneMarker s = None)"
  by (auto simp: updateFrame_def Let_def split: option.splits)

lemma session_loaded_same:
  assumes "flightData s' = flightData s" and "radarMeta s' = radarMeta s"
    and "(radarOverlay s' = None) = (radarOverlay s = None)"
    and "(airplaneMarker s' = None) = (airplaneMarker s = None)"
    and "slider_max s' = slider_max s" and "slider_disabled s' = slider_disabled s"
  shows "session_loaded s' = session_loaded s"
  using assms
  by (cases "flightData s"; cases "radarMeta s") (simp_all add: session_loaded_def)

lemma session_loaded_updateFrame:
  "session_loaded (state_of (updateFrame i s)) = session_loaded s"
  by (rule session_loaded_same) (simp_all add: updateFrame_fields updateFrame_kept updateFrame_session)

lemma range_value_bounds:
  "0 \<le> maximum \<Longrightarrow> 0 \<le> range_value maximum v \<and> range_value maximum v \<le> maximum"
  by (simp add: range_value_def)

lemma range_value_inside:
  "0 \<le> v \<Longrightarrow> v \<le> maximum \<Longrightarrow> range_value maximum v = v"
  by (simp add: range_value_def)

text \<open>
  Claim C4. In a loaded session of track length \<open>n\<close>, for every seek target \<open>i\<close>, below
  0 and from \<open>n\<close> on included, the seek is the pause followed by \<^verbatim>\<open>updateFrame\<close> at the
  value the slider holds: afterwards nothing plays (and, when the running timer was the
  script's own, no timer runs), the position is \<open>i\<close> brought into the range from 0 to
  \<open>n - 1\<close>, which is \<open>i\<close> itself when \<open>i\<close> is in that range, the slider shows the position,
  and no error is raised.
\<close>

theorem seek_pauses_then_clamps:
  assumes "session_loaded s" and "flightData s = Some fd"
  shows "slider_input i s =
           updateFrame (max 0 (min (int (length (points fd)) - 1) i))
             (pauseAnimation (s\<lparr>slider_value := max 0 (min (int (length (points fd)) - 1) i)\<rparr>))
       \<and> thrown (slider_input i s) = None
       \<and> \<not> isPlaying (state_of (slider_input i s))
       \<and> (timer_inv s \<longrightarrow> intervals (state_of (slider_input i s)) = {})
       \<and> currentIndex (state_of (slider_input i s)) = max 0 (min (int (length (points fd)) - 1) i)
       \<and> 0 \<le> currentIndex (state_of (slider_input i s))
       \<and> currentIndex (state_of (slider_input i s)) < int (length (points fd))
       \<and> (0 \<le> i \<and> i < int (length (points fd)) \<longrightarrow> currentIndex (state_of (slider_input i s)) = i)
       \<and> slider_value (state_of (slider_input i s)) = currentIndex (state_of (slider_input i s))
       \<and> session_loaded (state_of (slider_input i s))"
proof -
  let ?n = "int (length (points fd))"
  let ?v = "max 0 (min (?n - 1) i)"
  let ?s1 = "s\<lparr>slider_value := ?v\<rparr>"
  let ?p = "pauseAnimation ?s1"
  from assms have n: "0 < ?n" and mx: "slider_max s = ?n - 1" and en: "\<not> slider_disabled s"
    by (simp_all add: session_loaded_def)
  from assms obtain meta ov mk where rest: "radarMeta s = Some meta" "frames meta \<noteq> []"
      "radarOverlay s = Some ov" "airplaneMarker s = Some mk"
    by (auto simp: session_loaded_def split: option.splits)
  have eq: "slider_input i s = updateFrame ?v ?p"
    using en mx by (simp add: slider_input_def range_value_def Let_def)
  have v: "0 \<le> ?v" "?v < ?n" using n by simp_all
  then obtain pt where pt: "at_index (points fd) ?v = Some pt"
    by (simp add: at_index_def)
  have p: "flightData ?p = Some fd" "radarMeta ?p = Some meta" "radarOverlay ?p = Some ov"
    "airplaneMarker ?p = Some mk"
    using assms(2) rest by (simp_all add: pauseAnimation_def)
  note shown = updateFrame_in_range [OF p(1) pt p(2) rest(2) p(3) p(4)]
  have "session_loaded ?p = session_loaded s"
    by (rule session_loaded_same) (simp_all add: pauseAnimation_def)
  then have loaded: "session_loaded (state_of (slider_input i s))"
    using assms(1) by (simp add: eq session_loaded_updateFrame)
  have timers: "timer_inv s \<longrightarrow> intervals (state_of (slider_input i s)) = {}"
  proof
    assume "timer_inv s"
    then have "timer_inv ?s1" by (simp add: timer_inv_def)
    then show "intervals (state_of (slider_input i s)) = {}"
      by (simp add: eq updateFrame_fields timer_inv_pause)
  qed
  have inside: "0 \<le> i \<and> i < ?n \<longrightarrow> ?v = i" by auto
  from eq shown(1,4) v timers loaded inside show ?thesis
    by (simp add: updateFrame_fields pauseAnimation_fields)
qed

theorem seek_pauses_then_clamps_witness:
  "session_loaded (playAnimation session_A_drawn)
   \<and> isPlaying (playAnimation session_A_drawn)
   \<and> intervals (playAnimation session_A_drawn) = {1}
   \<and> slider_max (playAnimation session_A_drawn) = 2
   \<and> thrown (slider_input 7 (playAnimation session_A_drawn)) = None
   \<and> \<not> isPlaying (state_of (slider_input 7 (playAnimation session_A_drawn)))
   \<and> intervals (state_of (slider_input 7 (playAnimation session_A_drawn))) = {}
   \<and> currentIndex (state_of (slider_input 7 (playAnimation session_A_drawn))) = 2
   \<and> slider_value (state_of (slider_input 7 (playAnimation session_A_drawn))) = 2
   \<and> currentIndex (state_of (slider_input (-1) (playAnimation session_A_drawn))) = 0
   \<and> currentIndex (state_of (slider_input 1 (playAnimation session_A_drawn))) = 1"
proof -
  let ?fd = "\<lparr>path = Some [(-120, 38), (-121, 39)],
           points = [\<lparr>lon = -120, lat = 38, timestamp_iso = 0, seeding_type = None\<rparr>,
                     \<lparr>lon = -1205 / 10, lat = 385 / 10, timestamp_iso = 10000, seeding_type = Some ''Eject''\<rparr>,
                     \<lparr>lon = -121, lat = 39, timestamp_iso = 20000, seeding_type = Some ''BIP''\<rparr>]\<rparr>"
  have play: "isPlaying (playAnimation session_A_drawn)"
    "intervals (playAnimation session_A_drawn) = {1}"
    "slider_max (playAnimation session_A_drawn) = 2"
    by (simp_all add: playAnimation_def session_A_drawn_eval)
  have inv: "timer_inv (playAnimation session_A_drawn)"
    by (simp add: timer_inv_def playAnimation_def session_A_drawn_eval)
  have fd: "flightData (playAnimation session_A_drawn) = Some ?fd"
    by (simp add: playAnimation_def session_A_drawn_eval)
  have loaded: "session_loaded (playAnimation session_A_drawn)"
    by (simp add: session_loaded_def playAnimation_def session_A_drawn_eval)
  note seek = seek_pauses_then_clamps [OF loaded fd, THEN conjunct2]
  from seek [of 7] seek [of "-1"] seek [of 1] inv
  have "thrown (slider_input 7 (playAnimation session_A_drawn)) = None
    \<and> \<not> isPlaying (state_of (slider_input 7 (playAnimation session_A_drawn)))
    \<and> intervals (state_of (slider_input 7 (playAnimation session_A_drawn))) = {}
    \<and> currentIndex (state_of (slider_input 7 (playAnimation session_A_drawn))) = 2
    \<and> slider_value (state_of (slider_input 7 (playAnimation session_A_drawn))) = 2
    \<and> currentIndex (state_of (slider_input (-1) (playAnimation session_A_drawn))) = 0
    \<and> currentIndex (state_of (slider_input 1 (playAnimation session_A_drawn))) = 1"
    by simp
  with loaded play show ?thesis by blast
qed

text \<open>
  The slider is enabled only by a setup that completes, and disabled again by every
  reset: from a page whose slider starts disabled, a state in which the slider takes
  input is a loaded session.
\<close>

lemma at_index_first: "at_index xs 0 = Some x \<Longrightarrow> xs \<noteq> []"
  by (auto simp: at_index_def)

lemma setupAnimation_with_session:
  assumes "slider_disabled s"
  shows "slider_disabled (state_of (setupAnimation_with g s))
       \<or> session_loaded (state_of (setupAnimation_with g s))"
proof (cases "flightData s")
  case None
  with assms show ?thesis by (simp add: setupAnimation_with_def)
next
  case fd: (Some fd)
  show ?thesis
  proof (cases "at_index (points fd) 0")
    case None
    with assms fd show ?thesis by (simp add: setupAnimation_with_def)
  next
    case sp: (Some startPoint)
    show ?thesis
    proof (cases g)
      case (Inl e)
      with assms fd sp show ?thesis by (simp add: setupAnimation_with_def)
    next
      case x: (Inr x)
      show ?thesis
      proof (cases "radarMeta s")
        case None
        with assms fd sp x show ?thesis by (simp add: setupAnimation_with_def)
      next
        case meta: (Some meta)
        show ?thesis
        proof (cases "at_index (frames meta) 0")
          case None
          with assms fd sp x meta show ?thesis by (simp add: setupAnimation_with_def)
        next
          case (Some firstFrame)
          with fd sp x meta at_index_first [OF sp] at_index_first [OF Some]
          have "session_loaded (state_of (setupAnimation_with g s))"
            by (simp add: setupAnimation_with_def Let_def session_loaded_updateFrame)
               (simp add: session_loaded_def)
          then show ?thesis ..
        qed
      qed
    qed
  qed
qed

lemma loadFlight_with_session:
  "slider_disabled (loadFlight_with g v gj m s) \<or> session_loaded (loadFlight_with g v gj m s)"
proof (cases "gj = None \<or> m = None")
  case True
  then have "slider_disabled (loadFlight_with g v gj m s)"
    by (cases gj) (auto simp: loadFlight_with_def Let_def loadFlight_catch_def resetMap_result)
  then show ?thesis ..
next
  case False
  then obtain features meta where gj: "gj = Some features" and m: "m = Some meta" by auto
  let ?s3 = "state_of (drawFlightPath
        ((resetMap s)\<lparr>currentFlightId := Some v,
           flightData := Some \<lparr>path = first_line_string features, points = point_features features\<rparr>,
           radarMeta := Some (meta\<lparr>frames := array_sort compareFn (frames meta)\<rparr>)\<rparr>))"
  let ?c = "setupAnimation_with g ?s3"
  have "slider_disabled ?s3" by (simp add: drawFlightPath_fields resetMap_result)
  then have c: "slider_disabled (state_of ?c) \<or> session_loaded (state_of ?c)"
    by (rule setupAnimation_with_session)
  have "session_loaded (loadFlight_with g v gj m s) = session_loaded (state_of ?c)"
    unfolding gj m loadFlight_with_both_fetched
    by (rule session_loaded_same; cases ?c; simp add: loadFlight_catch_def)
  moreover have "slider_disabled (loadFlight_with g v gj m s) = slider_disabled (state_of ?c)"
    unfolding gj m loadFlight_with_both_fetched by (simp add: load_outcome_fields)
  ultimately show ?thesis using c by simp
qed

lemma session_step:
  assumes "slider_disabled s \<or> session_loaded s"
  shows "slider_disabled (step g s ev) \<or> session_loaded (step g s ev)"
proof (cases ev)
  case (Select v gj m)
  then show ?thesis
    by (simp add: flight_select_change_def loadFlight_with_session resetMap_result)
next
  case (Load v gj m)
  then show ?thesis by (simp add: loadFlight_with_session)
next
  case Reset
  then show ?thesis by (simp add: resetMap_result)
next
  case Play
  have "session_loaded (playAnimation s) = session_loaded s"
    by (rule session_loaded_same) (simp_all add: playAnimation_def)
  with assms Play show ?thesis by (auto simp: playAnimation_def)
next
  case Pause
  have "session_loaded (pauseAnimation s) = session_loaded s"
    by (rule session_loaded_same) (simp_all add: pauseAnimation_def)
  with assms Pause show ?thesis by (auto simp: pauseAnimation_def)
next
  case Click
  have "session_loaded (playAnimation s) = session_loaded s"
    by (rule session_loaded_same) (simp_all add: playAnimation_def)
  moreover have "session_loaded (pauseAnimation s) = session_loaded s"
    by (rule session_loaded_same) (simp_all add: pauseAnimation_def)
  ultimately show ?thesis
    using assms Click by (auto simp: play_pause_click_def playAnimation_def pauseAnimation_def)
next
  case (Seek i)
  show ?thesis
  proof (cases "slider_disabled s")
    case True
    with Seek show ?thesis by (simp add: slider_input_def)
  next
    case False
    with assms have "session_loaded s" by simp
    moreover have "session_loaded (pauseAnimation (s\<lparr>slider_value := range_value (slider_max s) i\<rparr>))
        = session_loaded s"
      by (rule session_loaded_same) (simp_all add: pauseAnimation_def)
    ultimately show ?thesis
      using Seek False by (simp add: slider_input_def Let_def session_loaded_updateFrame)
  qed
next
  case (Tick h)
  have "session_loaded (state_of (interval_callback s)) = session_loaded s"
    by (simp add: interval_callback_def Let_def session_loaded_updateFrame split: option.splits)
  moreover have "slider_disabled (state_of (interval_callback s)) = slider_disabled s"
    by (simp add: interval_callback_def Let_def updateFrame_kept split: option.splits)
  ultimately show ?thesis using assms Tick by auto
qed

lemma session_run:
  "slider_disabled s \<or> session_loaded s
     \<Longrightarrow> slider_disabled (run g s evs) \<or> session_loaded (run g s evs)"
  unfolding run_def
proof (induction evs arbitrary: s)
  case Nil
  then show ?case by simp
next
  case (Cons ev evs)
  from Cons.prems have "slider_disabled (step g s ev) \<or> session_loaded (step g s ev)"
    by (rule session_step)
  then show ?case using Cons.IH by simp
qed

lemma slider_input_disabled: "slider_disabled s \<Longrightarrow> slider_input i s = Normal s"
  by (simp add: slider_input_def)

lemma interval_callback_position:
  assumes "flightData s = Some fd"
  shows "currentIndex (state_of (interval_callback s)) =
           (if currentIndex s + 1 < int (length (points fd)) then currentIndex s + 1 else 0)"
  using assms by (simp add: interval_callback_def Let_def updateFrame_fields)

lemma interval_callback_fields:
  "flightData (state_of (interval_callback s)) = flightData s"
  "isPlaying (state_of (interval_callback s)) = isPlaying s"
  "timer (state_of (interval_callback s)) = timer s"
  "intervals (state_of (interval_callback s)) = intervals s"
  by (simp_all add: interval_callback_def Let_def updateFrame_fields split: option.splits)

lemma ticks_position:
  assumes "flightData s = Some fd" and "0 \<le> currentIndex s"
    and "currentIndex s < int (length (points fd))" and "h \<in> intervals s"
  shows "currentIndex (run g s (replicate k (Tick h))) =
           (currentIndex s + int k) mod int (length (points fd))"
  using assms
proof (induction k arbitrary: s)
  case 0
  then show ?case by (simp add: run_def)
next
  case (Suc k)
  let ?s = "state_of (interval_callback s)"
  let ?n = "int (length (points fd))"
  have pos: "currentIndex ?s = (currentIndex s + 1) mod ?n"
  proof (cases "currentIndex s + 1 < ?n")
    case True
    with Suc.prems show ?thesis by (simp add: interval_callback_position)
  next
    case False
    with Suc.prems(3) have "currentIndex s + 1 = ?n" by simp
    with Suc.prems(1) show ?thesis by (simp add: interval_callback_position)
  qed
  have npos: "0 < ?n" using Suc.prems(2,3) by linarith
  have "currentIndex (run g ?s (replicate k (Tick h))) = (currentIndex ?s + int k) mod ?n"
  proof (rule Suc.IH)
    show "flightData ?s = Some fd" using Suc.prems(1) by (simp add: interval_callback_fields)
    show "0 \<le> currentIndex ?s" using npos by (simp add: pos)
    show "currentIndex ?s < ?n" using npos by (simp add: pos)
    show "h \<in> intervals ?s" using Suc.prems(4) by (simp add: interval_callback_fields)
  qed
  also have "\<dots> = (currentIndex s + int (Suc k)) mod ?n"
    by (simp add: pos mod_add_left_eq add.assoc)
  finally show ?case
    using Suc.prems(4) by (simp add: run_def)
qed

text \<open>
  Claim C6. With flight data of \<open>n\<close> points loaded and the position \<open>p\<close> within
  \<open>0 \<le> p < n\<close>, one tick of the timer sets the position to \<open>p + 1\<close> when \<open>p + 1 < n\<close>
  and to 0 otherwise; the tick leaves the play flag and the running timer as they are,
  so that \<open>k\<close> ticks of the running timer bring the position to \<open>(p + k) mod n\<close>: playback
  wraps and goes on.
\<close>

theorem tick_advances_and_wraps:
  assumes "flightData s = Some fd" and "0 \<le> currentIndex s"
    and "currentIndex s < int (length (points fd))"
  shows "currentIndex (state_of (interval_callback s)) =
           (if currentIndex s + 1 < int (length (points fd)) then currentIndex s + 1 else 0)
       \<and> isPlaying (state_of (interval_callback s)) = isPlaying s
       \<and> intervals (state_of (interval_callback s)) = intervals s
       \<and> (h \<in> intervals s \<longrightarrow>
            currentIndex (run g s (replicate k (Tick h))) =
              (currentIndex s + int k) mod int (length (points fd)))"
  using assms
  by (simp add: interval_callback_position interval_callback_fields ticks_position)

theorem tick_advances_and_wraps_witness:
  "currentIndex (playAnimation session_A_drawn) = 0
   \<and> currentIndex (state_of (interval_callback (playAnimation session_A_drawn))) = 1
   \<and> currentIndex (run start_point_0 (playAnimation session_A_drawn) (replicate 2 (Tick 1))) = 2
   \<and> currentIndex (run start_point_0 (playAnimation session_A_drawn) (replicate 3 (Tick 1))) = 0
   \<and> currentIndex (run start_point_0 (playAnimation session_A_drawn) (replicate 100 (Tick 1))) = 1
   \<and> intervals (state_of (interval_callback (playAnimation session_A_drawn))) = {1}
   \<and> currentIndex (state_of (interval_callback (playAnimation session_A))) = 1"
proof -
  let ?fd = "\<lparr>path = Some [(-120, 38), (-121, 39)],
           points = [\<lparr>lon = -120, lat = 38, timestamp_iso = 0, seeding_type = None\<rparr>,
                     \<lparr>lon = -1205 / 10, lat = 385 / 10, timestamp_iso = 10000, seeding_type = Some ''Eject''\<rparr>,
                     \<lparr>lon = -121, lat = 39, timestamp_iso = 20000, seeding_type = Some ''BIP''\<rparr>]\<rparr>"
  have play: "currentIndex (playAnimation session_A_drawn) = 0"
    "intervals (playAnimation session_A_drawn) = {1}"
    "currentIndex (playAnimation session_A) = 0"
    by (simp_all add: playAnimation_def session_A_drawn_eval session_A_position)
  have fd: "flightData (playAnimation session_A_drawn) = Some ?fd"
    by (simp add: playAnimation_def session_A_drawn_eval)
  have fd0: "flightData (playAnimation session_A) = Some ?fd"
    by (simp add: playAnimation_def session_A_position session_A_flightData)
  have lo: "0 \<le> currentIndex (playAnimation session_A_drawn)" by (simp add: play)
  have lo0: "0 \<le> currentIndex (playAnimation session_A)" by (simp add: play)
  note t = tick_advances_and_wraps [OF fd lo, of 1 start_point_0]
  from t [of 2] t [of 3] t [of 100] tick_advances_and_wraps [OF fd0 lo0] play
  show ?thesis by simp
qed

section \<open>Loading\<close>



text \<open>
  Claim C5 as stated has the failed load end in the fully reset state, with no session
  data retained. Loading a flight file without any point on the fresh page leaves the
  flight data stored and the flight path drawn on the map; loading metadata without any
  frame leaves the flight data stored as well.
\<close>

theorem load_empty_series_counterexample:
  "point_features track_empty = []
   \<and> flightData (loadFlight ''A'' (Some track_empty) (Some meta_A) page_start)
       = Some \<lparr>path = Some [(-120, 38), (-121, 39)], points = []\<rparr>
   \<and> flightPathLayer (loadFlight ''A'' (Some track_empty) (Some meta_A) page_start)
       = Some \<lparr>layer_path = [(-120, 38), (-121, 39)], layer_on_map = True\<rparr>
   \<and> \<not> stopped (loadFlight ''A'' (Some track_empty) (Some meta_A) page_start)
   \<and> frames meta_empty = []
   \<and> flightData (loadFlight ''A'' (Some track_A) (Some meta_empty) page_start) \<noteq> None
   \<and> \<not> stopped (loadFlight ''A'' (Some track_A) (Some meta_empty) page_start)"
  by (simp add: stopped_def loadFlight_def loadFlight_with_data)
     (simp add: track_empty_def meta_empty_def meta_A_def page_start_def load_defs)

lemma loadFlight_with_empty:
  assumes "point_features features = [] \<or> frames meta = []"
  shows "alerts (loadFlight_with g v (Some features) (Some meta) s) = alerts s @ [load_alert]"
    and "controls_hidden (loadFlight_with g v (Some features) (Some meta) s)"
    and "slider_disabled (loadFlight_with g v (Some features) (Some meta) s)"
    and "currentIndex (loadFlight_with g v (Some features) (Some meta) s) = 0"
    and "currentRadarFile (loadFlight_with g v (Some features) (Some meta) s) = None"
proof -
  let ?s3 = "state_of (drawFlightPath
        ((resetMap s)\<lparr>currentFlightId := Some v,
           flightData := Some \<lparr>path = first_line_string features, points = point_features features\<rparr>,
           radarMeta := Some (meta\<lparr>frames := array_sort compareFn (frames meta)\<rparr>)\<rparr>))"
  let ?c = "setupAnimation_with g ?s3"
  have fd: "flightData ?s3 = Some \<lparr>path = first_line_string features, points = point_features features\<rparr>"
    and rm: "radarMeta ?s3 = Some (meta\<lparr>frames := array_sort compareFn (frames meta)\<rparr>)"
    by (simp_all add: drawFlightPath_fields)
  have "array_sort compareFn (frames meta) = []" if "frames meta = []"
    using that by (simp add: array_sort_def)
  with assms have
    "points \<lparr>path = first_line_string features, points = point_features features\<rparr> = []
     \<or> frames (meta\<lparr>frames := array_sort compareFn (frames meta)\<rparr>) = []"
    by auto
  from setupAnimation_with_empty [OF fd rm this, of g]
  have thrown: "thrown ?c \<noteq> None"
    and kept: "currentIndex (state_of ?c) = 0" "currentRadarFile (state_of ?c) = None"
      "slider_disabled (state_of ?c)"
    by (simp_all add: drawFlightPath_fields resetMap_result)
  from thrown obtain e s4 where c: "?c = Throw e s4" by (cases ?c) auto
  have s4: "alerts s4 = alerts s" "controls_hidden s4"
    using setupAnimation_with_fields(6,7) [of g ?s3] c
    by (simp_all add: drawFlightPath_fields resetMap_result)
  show "alerts (loadFlight_with g v (Some features) (Some meta) s) = alerts s @ [load_alert]"
    and "controls_hidden (loadFlight_with g v (Some features) (Some meta) s)"
    using c s4 by (simp_all add: loadFlight_with_both_fetched loadFlight_catch_def)
  show "slider_disabled (loadFlight_with g v (Some features) (Some meta) s)"
    and "currentIndex (loadFlight_with g v (Some features) (Some meta) s) = 0"
    and "currentRadarFile (loadFlight_with g v (Some features) (Some meta) s) = None"
    using kept by (simp_all add: loadFlight_with_both_fetched load_outcome_fields)
qed

text \<open>
  Claim C5, amended. For every load whose fetched track has no point or whose fetched
  radar frame sequence is empty, the load signals an error (the alert) and does not
  bring the session up: the controls stay hidden and the slider disabled, nothing plays,
  no timer of the script's runs, the position is 0 and no radar file is current. The
  fetched data stay stored: the flight data and the sorted radar metadata are retained.
  This holds whatever \<^verbatim>\<open>start_point[0]\<close> evaluates to, hence for the script as it is.
\<close>

theorem load_empty_series_fails:
  assumes "point_features features = [] \<or> frames meta = []"
    and "loadFlight_with g flightId (Some features) (Some meta) s = s'"
  shows "alerts s' = alerts s @ [load_alert]
       \<and> controls_hidden s' \<and> slider_disabled s'
       \<and> \<not> isPlaying s' \<and> (timer_inv s \<longrightarrow> intervals s' = {})
       \<and> currentIndex s' = 0 \<and> currentRadarFile s' = None
       \<and> flightData s' = Some \<lparr>path = first_line_string features, points = point_features features\<rparr>
       \<and> radarMeta s' = Some (meta\<lparr>frames := array_sort compareFn (frames meta)\<rparr>)"
  unfolding assms(2) [symmetric]
  using loadFlight_with_empty [OF assms(1), of g flightId s]
  by (simp add: loadFlight_with_data loadFlight_with_fields pauseAnimation_fields timer_inv_pause)

theorem load_empty_series_fails_witness:
  "alerts (loadFlight ''A'' (Some track_empty) (Some meta_A) (playAnimation session_A_drawn)) = [load_alert]
   \<and> controls_hidden (loadFlight ''A'' (Some track_empty) (Some meta_A) (playAnimation session_A_drawn))
   \<and> intervals (loadFlight ''A'' (Some track_empty) (Some meta_A) (playAnimation session_A_drawn)) = {}
   \<and> flightData (loadFlight ''A'' (Some track_empty) (Some meta_A) (playAnimation session_A_drawn))
        = Some \<lparr>path = Some [(-120, 38), (-121, 39)], points = []\<rparr>
   \<and> alerts (loadFlight_with (Inr (-120)) ''A'' (Some track_A) (Some meta_empty) page_start) = [load_alert]
   \<and> slider_disabled (loadFlight_with (Inr (-120)) ''A'' (Some track_A) (Some meta_empty) page_start)"
proof -
  have e1: "point_features track_empty = [] \<or> frames meta_A = []"
    by (simp add: track_empty_def point_features_def)
  have e2: "point_features track_A = [] \<or> frames meta_empty = []"
    by (simp add: meta_empty_def)
  have inv: "timer_inv (playAnimation session_A_drawn)"
    by (simp add: timer_inv_def playAnimation_def session_A_drawn_eval)
  have a: "alerts (playAnimation session_A_drawn) = []" "alerts page_start = []"
    by (simp_all add: playAnimation_def session_A_drawn_eval page_start_def)
  have p: "first_line_string track_empty = Some [(-120, 38), (-121, 39)]"
    "point_features track_empty = []"
    by (simp_all add: track_empty_def point_features_def)
  from load_empty_series_fails [OF e1 loadFlight_def [THEN fun_cong, THEN fun_cong, THEN fun_cong, THEN fun_cong, symmetric]]
    load_empty_series_fails [OF e2 refl, of "Inr (-120)" "''A''" page_start] inv a p
  show ?thesis by simp
qed

section \<open>Pause, reset and the timer\<close>

lemma resetMap_stopped:
  assumes "stopped s"
  shows "resetMap s = s"
proof -
  from assms have p: "pauseAnimation s = s" by (simp add: stopped_def pauseAnimation_def)
  have l: "map_option (\<lambda>l. l\<lparr>layer_on_map := False\<rparr>) (flightPathLayer s) = flightPathLayer s"
    using assms by (cases "flightPathLayer s") (simp_all add: stopped_def)
  have m: "map_option (\<lambda>m. m\<lparr>marker_on_map := False\<rparr>) (airplaneMarker s) = airplaneMarker s"
    using assms by (cases "airplaneMarker s") (simp_all add: stopped_def)
  have r: "map_option (\<lambda>r. r\<lparr>overlay_on_map := False\<rparr>) (radarOverlay s) = radarOverlay s"
    using assms by (cases "radarOverlay s") (simp_all add: stopped_def)
  from assms show ?thesis
    by (simp add: resetMap_def p l m r stopped_def)
qed

lemma stopped_resetMap:
  assumes "timer_inv s"
  shows "stopped (resetMap s)"
proof -
  have "intervals (resetMap s) = {}" "\<not> isPlaying (resetMap s)"
    using assms by (simp_all add: resetMap_fields timer_inv_pause pauseAnimation_fields)
  then show ?thesis
    by (simp add: stopped_def resetMap_result)
       (simp add: resetMap_def Let_def split: option.splits)
qed

lemma resetMap_idem: "resetMap (resetMap s) = resetMap s"
proof -
  have p: "pauseAnimation (resetMap s) = resetMap s"
    by (simp add: pauseAnimation_def resetMap_fields pauseAnimation_fields)
  have "resetMap (resetMap s) = (resetMap s)
      \<lparr>flightPathLayer := map_option (\<lambda>l. l\<lparr>layer_on_map := False\<rparr>) (flightPathLayer (resetMap s)),
       airplaneMarker := map_option (\<lambda>m. m\<lparr>marker_on_map := False\<rparr>) (airplaneMarker (resetMap s)),
       radarOverlay := map_option (\<lambda>r. r\<lparr>overlay_on_map := False\<rparr>) (radarOverlay (resetMap s)),
       flightData := None, currentIndex := 0, currentRadarFile := None,
       controls_hidden := True, slider_disabled := True\<rparr>"
    by (subst resetMap_def) (simp add: p Let_def)
  also have "\<dots> = resetMap s"
    by (simp add: resetMap_def Let_def option.map_comp comp_def)
  finally show ?thesis .
qed

text \<open>
  Claim C7. Pausing twice leaves exactly the state that pausing once leaves: not playing,
  the script's timer cancelled, the position as it was. Resetting a controller that is
  already stopped changes nothing, and neither function has a way to throw; resetting
  twice is resetting once, and a reset leaves the stopped state.
\<close>

theorem pause_idempotent_reset_noop:
  "pauseAnimation (pauseAnimation s) = pauseAnimation s
   \<and> \<not> isPlaying (pauseAnimation s)
   \<and> currentIndex (pauseAnimation s) = currentIndex s
   \<and> (timer_inv s \<longrightarrow> intervals (pauseAnimation s) = {})
   \<and> (stopped s \<longrightarrow> resetMap s = s)
   \<and> resetMap (resetMap s) = resetMap s
   \<and> (timer_inv s \<longrightarrow> stopped (resetMap s))"
  by (simp add: pauseAnimation_idem pauseAnimation_fields timer_inv_pause resetMap_stopped
      resetMap_idem stopped_resetMap)

theorem pause_idempotent_reset_noop_witness:
  "stopped page_start \<and> resetMap page_start = page_start
   \<and> timer_inv (playAnimation session_A_drawn)
   \<and> intervals (playAnimation session_A_drawn) = {1}
   \<and> intervals (pauseAnimation (playAnimation session_A_drawn)) = {}
   \<and> pauseAnimation (pauseAnimation (playAnimation session_A_drawn))
        = pauseAnimation (playAnimation session_A_drawn)
   \<and> stopped (resetMap (playAnimation session_A_drawn))
   \<and> resetMap (resetMap (playAnimation session_A_drawn)) = resetMap (playAnimation session_A_drawn)"
proof -
  have st: "stopped page_start" by (simp add: stopped_def page_start_def)
  have inv: "timer_inv (playAnimation session_A_drawn)"
    "intervals (playAnimation session_A_drawn) = {1}"
    by (simp_all add: timer_inv_def playAnimation_def session_A_drawn_eval)
  from pause_idempotent_reset_noop [of page_start]
    pause_idempotent_reset_noop [of "playAnimation session_A_drawn"]
    pause_idempotent_reset_noop [of "resetMap (playAnimation session_A_drawn)"] st inv
  show ?thesis by simp
qed

lemma timer_inv_updateFrame: "timer_inv (state_of (updateFrame i s)) = timer_inv s"
  by (rule timer_inv_same) (simp_all add: updateFrame_fields)

lemma timer_inv_resetMap: "timer_inv s \<Longrightarrow> timer_inv (resetMap s)"
  using timer_inv_pauseAnimation [of s]
  by (simp add: timer_inv_same [of "resetMap s" "pauseAnimation s"] resetMap_fields)

lemma timer_inv_loadFlight_with: "timer_inv s \<Longrightarrow> timer_inv (loadFlight_with g v gj m s)"
  using timer_inv_pauseAnimation [of s]
  by (simp add: timer_inv_same [of "loadFlight_with g v gj m s" "pauseAnimation s"]
      loadFlight_with_fields)

lemma timer_inv_slider_input: "timer_inv s \<Longrightarrow> timer_inv (state_of (slider_input i s))"
proof (cases "slider_disabled s")
  case True
  assume "timer_inv s"
  with True show ?thesis by (simp add: slider_input_def)
next
  case False
  assume "timer_inv s"
  then have "timer_inv (s\<lparr>slider_value := range_value (slider_max s) i\<rparr>)"
    by (simp add: timer_inv_def)
  then have "timer_inv (pauseAnimation (s\<lparr>slider_value := range_value (slider_max s) i\<rparr>))"
    by (rule timer_inv_pauseAnimation)
  with False show ?thesis
    by (simp add: slider_input_def Let_def timer_inv_updateFrame)
qed

lemma timer_inv_step: "timer_inv s \<Longrightarrow> timer_inv (step g s ev)"
proof (cases ev)
  case (Tick h)
  assume "timer_inv s"
  moreover have "timer_inv (state_of (interval_callback s)) = timer_inv s"
    by (rule timer_inv_same) (simp_all add: interval_callback_fields)
  ultimately show ?thesis using Tick by simp
qed (simp_all add: flight_select_change_def play_pause_click_def timer_inv_slider_input
      timer_inv_loadFlight_with timer_inv_resetMap timer_inv_playAnimation
      timer_inv_pauseAnimation)

lemma timer_inv_run: "timer_inv s \<Longrightarrow> timer_inv (run g s evs)"
  unfolding run_def
  by (induction evs arbitrary: s) (simp_all add: timer_inv_step)

lemma timer_inv_card: "timer_inv s \<Longrightarrow> finite (intervals s) \<and> card (intervals s) \<le> 1"
  by (auto simp: timer_inv_def split: if_splits)

text \<open>
  Claim C8. From a state in which the only timer that may run is the script's own, every
  sequence of selections, loads, plays, pauses, clicks, seeks, resets and ticks leads to
  a state with at most one running timer. A load resets first, so that it cancels the
  running timer before it builds anything and its outcome is that of the same load from
  the reset state; \<^verbatim>\<open>playAnimation\<close> while playing changes nothing; after two loads in a
  row no timer runs, and after a following play exactly one does.
\<close>

theorem at_most_one_timer:
  assumes "timer_inv s"
  shows "finite (intervals (run g s evs)) \<and> card (intervals (run g s evs)) \<le> 1
       \<and> intervals (loadFlight_with g v gj m s) = {}
       \<and> loadFlight_with g v gj m s = loadFlight_with g v gj m (resetMap s)
       \<and> (isPlaying s \<longrightarrow> playAnimation s = s)
       \<and> intervals (run g s (evs @ [Load v gj m, Load v' gj' m'])) = {}
       \<and> (\<exists>h. intervals (run g s (evs @ [Load v gj m, Load v' gj' m', Play])) = {h})"
proof -
  let ?s = "run g s evs"
  have inv: "timer_inv ?s" using assms by (rule timer_inv_run)
  let ?l = "loadFlight_with g v' gj' m' (loadFlight_with g v gj m ?s)"
  have l: "intervals ?l = {}" "\<not> isPlaying ?l"
    using timer_inv_loadFlight_with [OF inv, of g v gj m]
    by (simp_all add: loadFlight_with_fields timer_inv_pause pauseAnimation_fields)
  have two: "run g s (evs @ [Load v gj m, Load v' gj' m']) = ?l"
    by (simp add: run_def)
  have three: "run g s (evs @ [Load v gj m, Load v' gj' m', Play]) = playAnimation ?l"
    by (simp add: run_def)
  have one: "finite (intervals ?s) \<and> card (intervals ?s) \<le> 1"
    using inv by (rule timer_inv_card)
  have cancelled: "intervals (loadFlight_with g v gj m s) = {}"
    using assms by (simp add: loadFlight_with_fields timer_inv_pause)
  have reset_first: "loadFlight_with g v gj m s = loadFlight_with g v gj m (resetMap s)"
    by (simp add: loadFlight_with_def resetMap_idem)
  have again: "isPlaying s \<longrightarrow> playAnimation s = s"
    by (simp add: playAnimation_def)
  have none: "intervals (run g s (evs @ [Load v gj m, Load v' gj' m'])) = {}"
    by (simp only: two l)
  have "intervals (playAnimation ?l) = {next_interval ?l}"
    using l by (simp add: playAnimation_def)
  then have single: "\<exists>h. intervals (run g s (evs @ [Load v gj m, Load v' gj' m', Play])) = {h}"
    by (simp only: three) blast
  from one cancelled reset_first again none single show ?thesis by blast
qed

theorem at_most_one_timer_witness:
  "timer_inv page_start
   \<and> card (intervals (run start_point_0 page_start events_two_loads)) \<le> 1
   \<and> card (intervals (run (Inr (-120)) page_start events_two_loads)) \<le> 1
   \<and> intervals (playAnimation session_A_drawn) = {1}
   \<and> intervals (loadFlight_with (Inr (-120)) ''B'' (Some track_A) (Some meta_A) (playAnimation session_A_drawn)) = {}
   \<and> intervals (loadFlight ''B'' (Some track_A) (Some meta_A) (playAnimation session_A_drawn)) = {}"
proof -
  have inv: "timer_inv page_start" by (simp add: timer_inv_def page_start_def)
  have play: "timer_inv (playAnimation session_A_drawn)"
    "intervals (playAnimation session_A_drawn) = {1}"
    by (simp_all add: timer_inv_def playAnimation_def session_A_drawn_eval)
  note a = at_most_one_timer [OF inv, of start_point_0 events_two_loads]
  note b = at_most_one_timer [OF inv, of "Inr (-120)" events_two_loads]
  note c = at_most_one_timer [OF play(1), of "Inr (-120)" "[]" "''B''" "Some track_A" "Some meta_A"]
  note d = at_most_one_timer [OF play(1), of start_point_0 "[]" "''B''" "Some track_A" "Some meta_A"]
  from a have "card (intervals (run start_point_0 page_start events_two_loads)) \<le> 1" by blast
  moreover from b have "card (intervals (run (Inr (-120)) page_start events_two_loads)) \<le> 1"
    by blast
  moreover from c have "intervals (loadFlight_with (Inr (-120)) ''B'' (Some track_A) (Some meta_A)
      (playAnimation session_A_drawn)) = {}" by blast
  moreover from d have "intervals (loadFlight ''B'' (Some track_A) (Some meta_A)
      (playAnimation session_A_drawn)) = {}" unfolding loadFlight_def by blast
  ultimately show ?thesis using inv play by blast
qed

end
